theory Spec2Isabelle
  imports Complex_Main "HOL-Library.Char_ord" "HOL-Library.List_Lexorder" "HOL-Library.Log_Nat"
    "HOL-Library.Code_Target_Nat"
begin

section \<open>JavaScript values and the string primitives the engine relies on\<close>

text \<open>
  The ingestion engine is TypeScript running on Node. Its functions are embedded as HOL
  functions over the following model of the host language.

  \<^item> A string is a \<open>char list\<close>; a character is read as the UTF-16 code unit with the
    same number, so only code units U+0000 to U+00FF are represented.
  \<^item> A number is an exact rational, \<open>NaN\<close> or an infinity. The rounding of IEEE doubles
    and overflow to infinity are modelled where the engine rounds the result of its own
    arithmetic on a number it has parsed (\<open>parsePercentage\<close>, which rounds a product);
    everywhere else a number is the exact value of what was read.
  \<^item> A \<open>Date\<close> object is its time value in milliseconds; only valid dates occur as
    values, as in the engine. Parsing and printing of dates belong to the host and are
    taken as parameters (record \<open>host\<close> below).
  \<^item> A thrown exception is the \<open>Inl\<close> branch of a sum.
\<close>

datatype jsnum = NaN | Fin rat | PosInf | NegInf

datatype jsval = VUndef | VNull | VBool bool | VNum jsnum | VStr string | VDate int

text \<open>
  The error classes of \<open>utils.ts\<close>, and \<open>TypeError\<close> for the exceptions the runtime
  itself throws. Of an error's context object the scalar entries are kept.
\<close>

datatype app_error =
    ValidationError string "(string \<times> jsval) list"
  | ProcessingError string "(string \<times> jsval) list"
  | DatabaseError string "(string \<times> jsval) list"
  | TypeError string

text \<open>A raw cell read from a record: \<open>None\<close> is \<open>undefined\<close> (no such column).\<close>

definition raw_val :: "string option \<Rightarrow> jsval" where
  "raw_val v = (case v of None \<Rightarrow> VUndef | Some s \<Rightarrow> VStr s)"

text \<open>JavaScript truthiness (\<open>!v\<close> is its negation).\<close>

fun truthy :: "jsval \<Rightarrow> bool" where
  "truthy VUndef = False"
| "truthy VNull = False"
| "truthy (VBool b) = b"
| "truthy (VNum NaN) = False"
| "truthy (VNum (Fin x)) = (x \<noteq> 0)"
| "truthy (VNum PosInf) = True"
| "truthy (VNum NegInf) = True"
| "truthy (VStr s) = (s \<noteq> [])"
| "truthy (VDate d) = True"

definition truthy_raw :: "string option \<Rightarrow> bool" where
  "truthy_raw v = (case v of None \<Rightarrow> False | Some s \<Rightarrow> s \<noteq> [])"

text \<open>
  White space as \<open>String.prototype.trim\<close>, \<open>parseInt\<close>, \<open>parseFloat\<close> and the regular
  expression class \<open>\s\<close> see it, within U+0000 to U+00FF: TAB, LF, VT, FF, CR, SP, NBSP.
\<close>

definition is_ws :: "char \<Rightarrow> bool" where
  "is_ws c = (c \<in> set [CHR 0x09, CHR 0x0A, CHR 0x0B, CHR 0x0C, CHR 0x0D, CHR 0x20, CHR 0xA0])"

definition trimStart :: "string \<Rightarrow> string" where
  "trimStart s = dropWhile is_ws s"

definition trim :: "string \<Rightarrow> string" where
  "trim s = rev (dropWhile is_ws (rev (dropWhile is_ws s)))"

text \<open>
  \<open>toLowerCase\<close> on U+0000 to U+00FF: A to Z, and the Latin-1 capitals but U+00D7, move
  up by 32, which sets bit 5 of the code unit.
\<close>

definition lower_char :: "char \<Rightarrow> char" where
  "lower_char c =
     (let n = (of_char c :: nat)
      in if (65 \<le> n \<and> n \<le> 90) \<or> (192 \<le> n \<and> n \<le> 222 \<and> n \<noteq> 215)
         then (case c of Char b0 b1 b2 b3 b4 b5 b6 b7 \<Rightarrow> Char b0 b1 b2 b3 b4 True b6 b7)
         else c)"

definition toLowerCase :: "string \<Rightarrow> string" where
  "toLowerCase s = map lower_char s"

text \<open>\<open>s.split(d)\<close> for a one-character separator: never empty, \<open>''''\<close> gives \<open>['''']\<close>.\<close>

fun split_on :: "char \<Rightarrow> string \<Rightarrow> string list" where
  "split_on d [] = [[]]"
| "split_on d (c # cs) =
     (if c = d then [] # split_on d cs
      else (case split_on d cs of [] \<Rightarrow> [[c]] | p # ps \<Rightarrow> (c # p) # ps))"

text \<open>\<open>xs[i]\<close>: \<open>undefined\<close> out of range.\<close>

definition nth_opt :: "'a list \<Rightarrow> nat \<Rightarrow> 'a option" where
  "nth_opt xs i = (if i < length xs then Some (xs ! i) else None)"

subsection \<open>Reading numbers\<close>

definition is_digit :: "char \<Rightarrow> bool" where
  "is_digit c = (48 \<le> (of_char c :: nat) \<and> (of_char c :: nat) \<le> 57)"

definition is_hex_digit :: "char \<Rightarrow> bool" where
  "is_hex_digit c =
     (let n = (of_char c :: nat)
      in (48 \<le> n \<and> n \<le> 57) \<or> (65 \<le> n \<and> n \<le> 70) \<or> (97 \<le> n \<and> n \<le> 102))"

definition digit_val :: "char \<Rightarrow> nat" where
  "digit_val c =
     (let n = (of_char c :: nat)
      in if 97 \<le> n then n - 87 else if 65 \<le> n then n - 55 else n - 48)"

definition digits_value :: "nat \<Rightarrow> string \<Rightarrow> nat" where
  "digits_value radix ds = foldl (\<lambda>a c. radix * a + digit_val c) 0 ds"

text \<open>
  \<open>parseInt(s)\<close> with no radix: leading white space, a sign, a \<open>0x\<close> prefix switching to
  radix 16, then the longest run of digits; \<open>None\<close> is \<open>NaN\<close>.
\<close>

definition parseInt :: "string \<Rightarrow> int option" where
  "parseInt s =
     (let t = trimStart s;
          neg = (case t of [] \<Rightarrow> False | c # _ \<Rightarrow> c = CHR ''-'');
          u = (case t of [] \<Rightarrow> [] | c # r \<Rightarrow> if c = CHR ''-'' \<or> c = CHR ''+'' then r else t);
          hex = (case u of a # b # _ \<Rightarrow> a = CHR ''0'' \<and> (b = CHR ''x'' \<or> b = CHR ''X'') | _ \<Rightarrow> False);
          w = (if hex then drop 2 u else u);
          ds = takeWhile (if hex then is_hex_digit else is_digit) w
      in if ds = [] then None
         else Some ((if neg then - 1 else 1) * int (digits_value (if hex then 16 else 10) ds)))"

text \<open>
  The longest prefix of \<open>s\<close> that is a signed decimal literal (digits, a fraction, an
  exponent, or \<open>Infinity\<close>), with its value and the rest of the string. The exponent is read
  only when it has a digit.
\<close>

definition pow10 :: "int \<Rightarrow> rat" where
  "pow10 e = (if 0 \<le> e then 10 ^ nat e else 1 / 10 ^ nat (- e))"

definition read_exponent :: "string \<Rightarrow> int \<times> string" where
  "read_exponent r =
     (case r of
        [] \<Rightarrow> (0, r)
      | c # t \<Rightarrow>
          if c = CHR ''e'' \<or> c = CHR ''E'' then
            (let neg = (case t of [] \<Rightarrow> False | d # _ \<Rightarrow> d = CHR ''-'');
                 u = (case t of [] \<Rightarrow> [] | d # t' \<Rightarrow> if d = CHR ''-'' \<or> d = CHR ''+'' then t' else t);
                 ds = takeWhile is_digit u
             in if ds = [] then (0, r)
                else ((if neg then - 1 else 1) * int (digits_value 10 ds), dropWhile is_digit u))
          else (0, r))"

definition read_decimal :: "string \<Rightarrow> jsnum \<times> string" where
  "read_decimal s =
     (let neg = (case s of [] \<Rightarrow> False | c # _ \<Rightarrow> c = CHR ''-'');
          u = (case s of [] \<Rightarrow> [] | c # r \<Rightarrow> if c = CHR ''-'' \<or> c = CHR ''+'' then r else s)
      in if take 8 u = ''Infinity'' then (if neg then NegInf else PosInf, drop 8 u)
         else
           (let ip = takeWhile is_digit u;
                r1 = dropWhile is_digit u;
                dot = (case r1 of [] \<Rightarrow> False | c # _ \<Rightarrow> c = CHR ''.'');
                fp = (if dot then takeWhile is_digit (tl r1) else []);
                r2 = (if dot then dropWhile is_digit (tl r1) else r1)
            in if ip = [] \<and> fp = [] then (NaN, s)
               else
                 (let m = rat_of_nat (digits_value 10 ip)
                          + rat_of_nat (digits_value 10 fp) / 10 ^ length fp;
                      (e, r3) = read_exponent r2
                  in (Fin ((if neg then - 1 else 1) * m * pow10 e), r3))))"

text \<open>\<open>parseFloat(s)\<close>: the decimal literal at the start of \<open>s\<close> after leading white space.\<close>

definition parseFloat :: "string \<Rightarrow> jsnum" where
  "parseFloat s = fst (read_decimal (trimStart s))"

definition isNaN :: "jsnum \<Rightarrow> bool" where
  "isNaN x = (x = NaN)"

text \<open>\<open>a < b\<close> on numbers: false whenever an operand is \<open>NaN\<close>.\<close>

fun num_less :: "jsnum \<Rightarrow> jsnum \<Rightarrow> bool" where
  "num_less NaN _ = False"
| "num_less _ NaN = False"
| "num_less (Fin a) (Fin b) = (a < b)"
| "num_less NegInf NegInf = False"
| "num_less NegInf _ = True"
| "num_less _ NegInf = False"
| "num_less PosInf _ = False"
| "num_less _ PosInf = True"

text \<open>\<open>Math.round\<close>: the nearest integer, a half rounded up.\<close>

fun math_round :: "jsnum \<Rightarrow> jsnum" where
  "math_round (Fin x) = Fin (of_int \<lfloor>x + 1 / 2\<rfloor>)"
| "math_round x = x"

text \<open>The decimal digits of a natural number.\<close>

fun nat_digits :: "nat \<Rightarrow> string" where
  "nat_digits n =
     (if n < 10 then [''0123456789'' ! n] else nat_digits (n div 10) @ [''0123456789'' ! (n mod 10)])"

subsection \<open>Doubles: rounding to binary64 and the printing of an integral number\<close>

text \<open>\<open>x * 2^k\<close> for an integer \<open>k\<close>.\<close>

definition scale2 :: "rat \<Rightarrow> int \<Rightarrow> rat" where
  "scale2 x k = (if 0 \<le> k then x * 2 ^ nat k else x / 2 ^ nat (- k))"

text \<open>
  The binary exponent of \<open>a > 0\<close>: the \<open>e\<close> with \<open>2^e \<le> a < 2^(e+1)\<close>. For \<open>a = p / q\<close> in
  lowest terms it is the difference of the bit lengths of \<open>p\<close> and \<open>q\<close>, or one less.
\<close>

definition binade :: "rat \<Rightarrow> int" where
  "binade a =
     (case quotient_of a of
        (p, q) \<Rightarrow> (let e = bitlen p - bitlen q in if scale2 1 e \<le> a then e else e - 1))"

text \<open>The nearest integer, a half going to the even neighbour.\<close>

definition round_half_even :: "rat \<Rightarrow> int" where
  "round_half_even m =
     (let f = \<lfloor>m\<rfloor>; d = m - of_int f
      in if d < 1 / 2 then f else if 1 / 2 < d then f + 1 else if even f then f else f + 1)"

text \<open>
  The double nearest to a real number (IEEE 754 binary64, round to nearest, ties to
  even): the number is rounded to a multiple of \<open>2^q\<close>, where \<open>q\<close> leaves 53 significant
  bits and is at least \<open>-1074\<close> (the subnormal range); a result of \<open>2^1024\<close> or more is an
  infinity. The sign of a zero is not kept.
\<close>

definition to_double :: "rat \<Rightarrow> jsnum" where
  "to_double x =
     (if x = 0 then Fin 0
      else
        (let a = \<bar>x\<bar>;
             q = max (binade a - 52) (- 1074);
             r = scale2 (of_int (round_half_even (scale2 a (- q)))) q
         in if 1024 \<le> binade r then (if x < 0 then NegInf else PosInf)
            else Fin (if x < 0 then - r else r)))"

text \<open>The decimal digits of an integer that is not negative.\<close>

function int_digits :: "int \<Rightarrow> string" where
  "int_digits n =
     (if n < 10 then [''0123456789'' ! nat n]
      else int_digits (n div 10) @ [''0123456789'' ! nat (n mod 10)])"
  by pat_completeness auto
termination
  by (relation "measure nat") auto

text \<open>
  The decimal number that \<open>String\<close> prints for a positive integral double \<open>D\<close> of \<open>dg\<close>
  digits: the one with the fewest significant digits that still rounds to \<open>D\<close>, and of
  those the nearest to \<open>D\<close>. With \<open>k\<close> significant digits the candidates are the two
  multiples of \<open>10^(dg-k)\<close> around \<open>D\<close>.
\<close>

function shortest_from :: "int \<Rightarrow> nat \<Rightarrow> nat \<Rightarrow> int" where
  "shortest_from D dg k =
     (if dg \<le> k then D
      else
        (let u = 10 ^ (dg - k);
             lo = (D div u) * u;
             hi = lo + u;
             lo_ok = (to_double (of_int lo) = Fin (of_int D));
             hi_ok = (to_double (of_int hi) = Fin (of_int D))
         in if lo_ok \<and> hi_ok then
              (if D - lo < hi - D then lo
               else if hi - D < D - lo then hi
               else if even (D div u) then lo else hi)
            else if lo_ok then lo
            else if hi_ok then hi
            else shortest_from D dg (k + 1)))"
  by pat_completeness auto
termination
  by (relation "measure (\<lambda>(D, dg, k). dg - k)") auto

text \<open>
  \<open>String(n)\<close> for an integral double \<open>n\<close>. Below \<open>2^53\<close> every integer is a double and is
  printed digit by digit. From there on the digits are those of the shortest decimal that
  rounds to \<open>n\<close>, written in full when there are at most 21 of them and in exponent
  notation otherwise.
\<close>

definition number_to_string :: "int \<Rightarrow> string" where
  "number_to_string n =
     (let a = \<bar>n\<bar>;
          sgn = (if n < 0 then ''-'' else [])
      in if a < 9007199254740992 then sgn @ int_digits a
         else
           (let v = int_digits (shortest_from a (length (int_digits a)) 1);
                sig = rev (dropWhile (\<lambda>c. c = CHR ''0'') (rev v))
            in if length v \<le> 21 then sgn @ v
               else sgn @ take 1 sig @ (if drop 1 sig = [] then [] else ''.'' @ drop 1 sig)
                    @ ''e+'' @ int_digits (int (length v) - 1)))"

text \<open>\<open>String(x)\<close> for a number \<open>x\<close> that is integral, \<open>NaN\<close> or an infinity.\<close>

fun number_string :: "jsnum \<Rightarrow> string" where
  "number_string NaN = ''NaN''"
| "number_string PosInf = ''Infinity''"
| "number_string NegInf = ''-Infinity''"
| "number_string (Fin x) = number_to_string \<lfloor>x\<rfloor>"

text \<open>
  A number as a double, and the product \<open>a * c\<close> of a double \<open>a\<close> and a positive constant
  \<open>c\<close>, rounded to a double.
\<close>

fun double_of :: "jsnum \<Rightarrow> jsnum" where
  "double_of (Fin x) = to_double x"
| "double_of x = x"

fun times_double :: "jsnum \<Rightarrow> rat \<Rightarrow> jsnum" where
  "times_double (Fin x) c = to_double (x * c)"
| "times_double x c = x"

subsection \<open>The host's \<open>Date\<close>\<close>

text \<open>
  What the engine asks of the host's \<open>Date\<close>, as parameters: \<open>date_parse s\<close> is the time
  value of \<open>new Date(s)\<close> (\<open>None\<close> for an invalid date), \<open>date_local y m d h mi s\<close> that of
  \<open>new Date(y, m, d, h, mi, s)\<close>, and \<open>date_iso_day t\<close> is
  \<open>toISOString().split('T')[0]\<close> of the date with time value \<open>t\<close>.
\<close>

record host =
  date_parse :: "string \<Rightarrow> int option"
  date_local :: "int \<Rightarrow> int \<Rightarrow> int \<Rightarrow> int \<Rightarrow> int \<Rightarrow> int \<Rightarrow> int option"
  date_iso_day :: "int \<Rightarrow> string"

section \<open>Validators (utils.ts)\<close>

definition isValidString :: "string option \<Rightarrow> bool" where
  "isValidString v = (case v of None \<Rightarrow> False | Some s \<Rightarrow> length (trim s) > 0)"

text \<open>\<open>/^[a-z_]+$/\<close>\<close>

definition isValidIntegrationKey :: "string \<Rightarrow> bool" where
  "isValidIntegrationKey k =
     (k \<noteq> [] \<and> list_all (\<lambda>c. (97 \<le> (of_char c :: nat) \<and> (of_char c :: nat) \<le> 122) \<or> c = CHR ''_'') k)"

section \<open>The transform library (DataTransforms)\<close>

definition existsOrEmpty :: "string option \<Rightarrow> jsval" where
  "existsOrEmpty v = (if truthy_raw v then raw_val v else VStr [])"

definition existsOrDefault :: "string option \<Rightarrow> string \<Rightarrow> jsval" where
  "existsOrDefault v defaultValue = (if truthy_raw v then raw_val v else VStr defaultValue)"

definition parseBoolean :: "string option \<Rightarrow> string \<Rightarrow> jsval" where
  "parseBoolean v trueValue = VBool (v = Some trueValue)"

text \<open>\<open>parseFloat(undefined)\<close> reads the string \<open>undefined\<close>, which is \<open>NaN\<close>.\<close>

definition parseFloat_raw :: "string option \<Rightarrow> jsnum" where
  "parseFloat_raw v = (case v of None \<Rightarrow> NaN | Some s \<Rightarrow> parseFloat s)"

text \<open>
  \<open>parsePercentage\<close>: \<open>num\<close> is the double that \<open>parseFloat\<close> returns, \<open>num * 100\<close> is the
  double nearest to the product, and \<open>Math.round\<close> of it is printed in front of \<open>%\<close>. The
  rounding to doubles decides the outcome when the product is next to a half: \<open>0.285\<close>
  gives \<open>28%\<close>, since the double product is just below \<open>28.5\<close>.
\<close>

definition parsePercentage :: "string option \<Rightarrow> jsval" where
  "parsePercentage v =
     (let num = double_of (parseFloat_raw v)
      in if isNaN num then VStr ''unknown''
         else VStr (number_string (math_round (times_double num 100)) @ ''%''))"

text \<open>\<open>parseInt(parts[i]) || 0\<close>: a missing part and \<open>NaN\<close> both give 0.\<close>

definition parseInt_or_zero :: "string option \<Rightarrow> int" where
  "parseInt_or_zero p =
     (case p of None \<Rightarrow> 0 | Some s \<Rightarrow> (case parseInt s of None \<Rightarrow> 0 | Some n \<Rightarrow> n))"

definition timeToMinutes :: "string option \<Rightarrow> app_error + jsval" where
  "timeToMinutes v =
     (case v of
        None \<Rightarrow> Inr VNull
      | Some s \<Rightarrow>
          if \<not> isValidString (Some s) then Inr VNull
          else if CHR '':'' \<in> set s then
            (let parts = split_on CHR '':'' s
             in if length parts < 2 \<or> length parts > 3 then
                  Inl (ProcessingError ''Invalid time format''
                        [(''value'', VStr s), (''expectedFormat'', VStr ''HH:MM or HH:MM:SS'')])
                else
                  (let hours = parseInt_or_zero (nth_opt parts 0);
                       minutes = parseInt_or_zero (nth_opt parts 1);
                       seconds = parseInt_or_zero (nth_opt parts 2)
                   in if hours < 0 \<or> minutes < 0 \<or> minutes > 59 \<or> seconds < 0 \<or> seconds > 59 then
                        Inl (ProcessingError ''Invalid time values''
                              [(''value'', VStr s), (''hours'', VNum (Fin (of_int hours))),
                               (''minutes'', VNum (Fin (of_int minutes))),
                               (''seconds'', VNum (Fin (of_int seconds)))])
                      else
                        Inr (VNum (Fin (of_int (hours * 60 + minutes + \<lfloor>of_int seconds / (60 :: rat) + 1 / 2\<rfloor>))))))
          else
            (let num = parseFloat s
             in if isNaN num \<or> num_less num (Fin 0) then
                  Inl (ProcessingError ''Invalid numeric time value'' [(''value'', VStr s)])
                else Inr (VNum (math_round num))))"

text \<open>
  The pattern \<open>/^(\d{1,2})\/(\d{1,2})\/(\d{4})\s+(\d{1,2}):(\d{2}):(\d{2})$/\<close>: the groups
  when it matches.
\<close>

definition digits_len :: "nat \<Rightarrow> nat \<Rightarrow> string \<Rightarrow> bool" where
  "digits_len lo hi s = (lo \<le> length s \<and> length s \<le> hi \<and> list_all is_digit s)"

definition ukDateMatch :: "string \<Rightarrow> (string \<times> string \<times> string \<times> string \<times> string \<times> string) option" where
  "ukDateMatch s =
     (case split_on CHR ''/'' s of
        [day, month, rest] \<Rightarrow>
          (let year = take 4 rest;
               gap = takeWhile is_ws (drop 4 rest);
               time = dropWhile is_ws (drop 4 rest)
           in case split_on CHR '':'' time of
                [hour, minute, second] \<Rightarrow>
                  if digits_len 1 2 day \<and> digits_len 1 2 month \<and> digits_len 4 4 year \<and> gap \<noteq> []
                     \<and> digits_len 1 2 hour \<and> digits_len 2 2 minute \<and> digits_len 2 2 second
                  then Some (day, month, year, hour, minute, second) else None
              | _ \<Rightarrow> None)
      | _ \<Rightarrow> None)"

definition parseDate :: "host \<Rightarrow> string option \<Rightarrow> app_error + jsval" where
  "parseDate H v =
     (case v of
        None \<Rightarrow> Inr VNull
      | Some s \<Rightarrow>
          if \<not> isValidString (Some s) then Inr VNull
          else
            (case ukDateMatch s of
               Some (day, month, year, hour, minute, second) \<Rightarrow>
                 (let dayNum = int (digits_value 10 day);
                      monthNum = int (digits_value 10 month);
                      yearNum = int (digits_value 10 year);
                      hourNum = int (digits_value 10 hour);
                      minuteNum = int (digits_value 10 minute);
                      secondNum = int (digits_value 10 second)
                  in if dayNum < 1 \<or> dayNum > 31 \<or> monthNum < 1 \<or> monthNum > 12
                        \<or> hourNum < 0 \<or> hourNum > 23 \<or> minuteNum < 0 \<or> minuteNum > 59
                        \<or> secondNum < 0 \<or> secondNum > 59 then
                       Inl (ProcessingError ''Invalid date/time components''
                             [(''value'', VStr s), (''day'', VNum (Fin (of_int dayNum))),
                              (''month'', VNum (Fin (of_int monthNum))),
                              (''year'', VNum (Fin (of_int yearNum))),
                              (''hour'', VNum (Fin (of_int hourNum))),
                              (''minute'', VNum (Fin (of_int minuteNum))),
                              (''second'', VNum (Fin (of_int secondNum)))])
                     else
                       (case date_local H yearNum (monthNum - 1) dayNum hourNum minuteNum secondNum of
                          None \<Rightarrow> Inl (ProcessingError ''Invalid date'' [(''value'', VStr s)])
                        | Some t \<Rightarrow> Inr (VDate t)))
             | None \<Rightarrow>
                 (case date_parse H s of
                    None \<Rightarrow> Inl (ProcessingError ''Invalid date format'' [(''value'', VStr s)])
                  | Some t \<Rightarrow> Inr (VDate t))))"

definition parseDeliveryPlatform2Time :: "string option \<Rightarrow> jsval" where
  "parseDeliveryPlatform2Time v = (if truthy_raw v then raw_val v else VStr [])"

text \<open>\<open>value?.toLowerCase()\<close>: \<open>undefined\<close> for a missing value.\<close>

definition lower_raw :: "string option \<Rightarrow> string option" where
  "lower_raw v = map_option toLowerCase v"

definition deliveryType :: "string option \<Rightarrow> jsval" where
  "deliveryType v =
     (if lower_raw v = Some ''delivery'' then VStr ''DELIVERY''
      else if lower_raw v = Some ''collection'' then VStr ''COLLECTION''
      else if lower_raw v = Some ''pickup'' then VStr ''PICKUP''
      else VStr ''UNKNOWN'')"

definition deliveryPlatform1OrderStatus :: "string option \<Rightarrow> jsval" where
  "deliveryPlatform1OrderStatus v =
     (if lower_raw v = Some ''completed'' then VStr ''COMPLETED''
      else if lower_raw v = Some ''canceled'' then VStr ''REJECTED_CUSTOMER''
      else VStr ''REJECTED'')"

definition deliveryPlatform1Boolean :: "string option \<Rightarrow> jsval" where
  "deliveryPlatform1Boolean v = parseBoolean v ''1''"

definition deliveryPlatform1CancelledBy :: "string option \<Rightarrow> jsval" where
  "deliveryPlatform1CancelledBy v = existsOrEmpty v"

definition deliveryPlatform3OrderStatus :: "string option \<Rightarrow> jsval" where
  "deliveryPlatform3OrderStatus v = existsOrEmpty v"

definition deliveryPlatform2AcceptStatus :: "string option \<Rightarrow> jsval" where
  "deliveryPlatform2AcceptStatus v =
     (if lower_raw v = Some ''on'' then VStr ''accepted''
      else if \<not> isNaN (parseFloat_raw v) then parsePercentage v
      else existsOrDefault v ''unknown'')"

text \<open>The master dispatcher: a \<open>switch\<close> on the transform's name.\<close>

definition runTransformation :: "host \<Rightarrow> string option \<Rightarrow> string \<Rightarrow> app_error + jsval" where
  "runTransformation H v transformName =
     (if transformName = ''existsOrEmpty'' then Inr (existsOrEmpty v)
      else if transformName = ''existsOrDefault'' then Inr (existsOrDefault v ''unknown'')
      else if transformName = ''parseBoolean'' then Inr (parseBoolean v ''1'')
      else if transformName = ''parsePercentage'' then Inr (parsePercentage v)
      else if transformName = ''timeToMinutes'' then timeToMinutes v
      else if transformName = ''parseDate'' then parseDate H v
      else if transformName = ''parseDeliveryPlatform2Time'' then Inr (parseDeliveryPlatform2Time v)
      else if transformName = ''parseDeliveryPlatform2DateTime'' then parseDate H v
      else if transformName = ''deliveryType'' then Inr (deliveryType v)
      else if transformName = ''deliveryPlatform1OrderStatus'' then Inr (deliveryPlatform1OrderStatus v)
      else if transformName = ''deliveryPlatform1Boolean'' then Inr (deliveryPlatform1Boolean v)
      else if transformName = ''deliveryPlatform1CancelledBy'' then Inr (deliveryPlatform1CancelledBy v)
      else if transformName = ''deliveryPlatform3OrderStatus'' then Inr (deliveryPlatform3OrderStatus v)
      else if transformName = ''deliveryPlatform2AcceptStatus'' then Inr (deliveryPlatform2AcceptStatus v)
      else Inr (raw_val v))"

text \<open>The names the dispatcher knows: the labels of its \<open>switch\<close>.\<close>

definition transform_registry :: "string list" where
  "transform_registry =
     [''existsOrEmpty'', ''existsOrDefault'', ''parseBoolean'', ''parsePercentage'',
      ''timeToMinutes'', ''parseDate'', ''parseDeliveryPlatform2Time'',
      ''parseDeliveryPlatform2DateTime'', ''deliveryType'', ''deliveryPlatform1OrderStatus'',
      ''deliveryPlatform1Boolean'', ''deliveryPlatform1CancelledBy'',
      ''deliveryPlatform3OrderStatus'', ''deliveryPlatform2AcceptStatus'']"

section \<open>Configuration data (types.ts)\<close>

text \<open>
  \<open>FieldMap\<close>: an optional member that is absent is \<open>None\<close>; \<open>required\<close> absent is
  \<open>False\<close>. \<open>enum_values\<close> present is truthy even when it is the empty array.
\<close>

record FieldMap =
  target :: string
  ftype :: "string option"
  enum_values :: "string list option"
  ftransform :: "string option"
  required :: bool
  fdefault :: "jsval option"

text \<open>
  \<open>Integration\<close>, as a row of the \<open>integrations\<close> table: \<open>field_mapping\<close> lists the
  entries of the mapping object in the order \<open>Object.entries\<close> yields them.
\<close>

record Integration =
  integration_id :: nat
  name :: string
  platform_id :: int
  field_mapping :: "(string \<times> FieldMap) list"
  tables :: "string list"
  is_active :: bool

section \<open>The CSV line parser (IngestionEngine.parseCSVLine)\<close>

abbreviation dquote :: char where
  "dquote \<equiv> CHR 0x22"

text \<open>
  The \<open>for\<close> loop over the characters of the line, with its three variables: \<open>inQuotes\<close>,
  \<open>currentField\<close> and \<open>result\<close>. The list is the part of the line from index \<open>i\<close> on; the
  branch for an escaped quote skips the character after it.
\<close>

fun csv_loop :: "bool \<Rightarrow> string \<Rightarrow> string list \<Rightarrow> string \<Rightarrow> string list" where
  "csv_loop inQuotes currentField result [] = result @ [trim currentField]"
| "csv_loop inQuotes currentField result (c # rest) =
     (if c = dquote then
        (case rest of
           [] \<Rightarrow> csv_loop (\<not> inQuotes) currentField result rest
         | d # rest' \<Rightarrow>
             if inQuotes \<and> d = dquote then csv_loop inQuotes (currentField @ [dquote]) result rest'
             else csv_loop (\<not> inQuotes) currentField result rest)
      else if c = CHR '','' \<and> \<not> inQuotes then csv_loop inQuotes [] (result @ [trim currentField]) rest
      else csv_loop inQuotes (currentField @ [c]) result rest)"

definition parseCSVLine :: "string \<Rightarrow> string list" where
  "parseCSVLine line = csv_loop False [] [] line"

text \<open>Line 1 of a file: \<open>this.parseCSVLine(line).map(h => h.trim())\<close>.\<close>

definition parse_headers :: "string \<Rightarrow> string list" where
  "parse_headers line = map trim (parseCSVLine line)"

text \<open>
  The raw record of a data line: \<open>headers.forEach((h, i) => record[h] = fields[i] || '')\<close>,
  where \<open>cells\<close> stands for the source's \<open>fields\<close>.
  A later header of the same name overwrites an earlier one; a column that is no header
  reads as \<open>undefined\<close> (names of \<open>Object.prototype\<close> members, which would read as
  inherited properties, are left out of account).
\<close>

definition field_or_empty :: "string list \<Rightarrow> nat \<Rightarrow> string" where
  "field_or_empty cells i = (case nth_opt cells i of None \<Rightarrow> [] | Some f \<Rightarrow> f)"

definition build_record :: "string list \<Rightarrow> string list \<Rightarrow> (string \<Rightarrow> string option)" where
  "build_record headers cells =
     fold (\<lambda>(h, i) record. record(h \<mapsto> field_or_empty cells i))
          (zip headers [0 ..< length headers]) Map.empty"

section \<open>The field mapper (IngestionEngine.applyTransform, transformEnum, transform)\<close>

definition transformEnum :: "string option \<Rightarrow> FieldMap \<Rightarrow> jsval" where
  "transformEnum v fieldMap =
     (case enum_values fieldMap of
        None \<Rightarrow> raw_val v
      | Some evs \<Rightarrow>
          (let normalizedValue = lower_raw v
           in case find (\<lambda>enumVal. Some (toLowerCase enumVal) = normalizedValue) evs of
                None \<Rightarrow> raw_val v
              | Some m \<Rightarrow> if m \<noteq> [] then VStr m else raw_val v))"

text \<open>\<open>String(value).replace(/[^0-9.-]/g, '')\<close>\<close>

definition strip_non_numeric :: "string \<Rightarrow> string" where
  "strip_non_numeric s = filter (\<lambda>c. is_digit c \<or> c = CHR ''.'' \<or> c = CHR ''-'') s"

text \<open>The \<open>switch (fieldMap.type)\<close> of \<open>applyTransform\<close>.\<close>

definition coerce_by_type :: "host \<Rightarrow> string option \<Rightarrow> FieldMap \<Rightarrow> jsval" where
  "coerce_by_type H v fieldMap =
     (if ftype fieldMap = Some ''number'' then
        (case v of
           None \<Rightarrow> VNull
         | Some s \<Rightarrow>
             if s = [] then VNull
             else (let num = parseFloat (strip_non_numeric s)
                   in if isNaN num then VNull else VNum num))
      else if ftype fieldMap = Some ''boolean'' then
        (case v of
           None \<Rightarrow> VBool False
         | Some s \<Rightarrow>
             if s = [] then VBool False
             else (let strValue = toLowerCase s
                   in VBool (strValue = ''on'' \<or> strValue = ''true'' \<or> strValue = ''1'')))
      else if ftype fieldMap = Some ''date'' then
        (case v of
           None \<Rightarrow> VNull
         | Some s \<Rightarrow>
             if s = [] then VNull
             else (case date_parse H s of None \<Rightarrow> VNull | Some t \<Rightarrow> VDate t))
      else if ftype fieldMap = Some ''enum'' then transformEnum v fieldMap
      else
        (case v of
           None \<Rightarrow> VNull
         | Some s \<Rightarrow> if s = [] then VNull else if trim s = [] then VNull else VStr (trim s)))"

text \<open>\<open>if (fieldMap.transform)\<close>: a transform name that is present and not empty.\<close>

definition transform_set :: "FieldMap \<Rightarrow> string option" where
  "transform_set fieldMap =
     (case ftransform fieldMap of None \<Rightarrow> None | Some t \<Rightarrow> if t = [] then None else Some t)"

definition applyTransform :: "host \<Rightarrow> string option \<Rightarrow> FieldMap \<Rightarrow> app_error + jsval" where
  "applyTransform H v fieldMap =
     (case (truthy_raw v, fdefault fieldMap) of
        (False, Some d) \<Rightarrow> Inr d
      | _ \<Rightarrow>
          (case transform_set fieldMap of
             Some t \<Rightarrow> runTransformation H v t
           | None \<Rightarrow> Inr (coerce_by_type H v fieldMap)))"

section \<open>The status resolver (IngestionEngine.determineOrderStatus)\<close>

text \<open>
  A normalized record is an object read by property name: a property never set reads as
  \<open>undefined\<close>.
\<close>

type_synonym norm_record = "string \<Rightarrow> jsval"

text \<open>
  \<open>parseInt(String(x))\<close> for a finite number \<open>x\<close>. \<open>String(x)\<close> is in decimal notation
  for \<open>10^-6 \<le> |x| < 10^21\<close>, where \<open>parseInt\<close> reads the integer part; outside that range
  it is in exponent notation, of which \<open>parseInt\<close> reads the one leading digit.
\<close>

function leading_fraction_digit :: "nat \<Rightarrow> nat \<Rightarrow> nat" where
  "leading_fraction_digit p q =
     (if p = 0 \<or> q \<le> 10 * p then (10 * p) div q else leading_fraction_digit (10 * p) q)"
  by pat_completeness auto
termination
  by (relation "measure (\<lambda>(p, q). q - p)") auto

definition parseInt_number :: "rat \<Rightarrow> int option" where
  "parseInt_number x =
     (let a = \<bar>x\<bar>; sign = (if x < 0 then - 1 else 1)
      in if x = 0 then Some 0
         else if 1 / 1000000 \<le> a \<and> a < 1000000000000000000000 then Some (sign * \<lfloor>a\<rfloor>)
         else if 1000000000000000000000 \<le> a then
           Some (sign * int (case nat_digits (nat \<lfloor>a\<rfloor>) of [] \<Rightarrow> 0 | c # _ \<Rightarrow> digit_val c))
         else
           (case quotient_of a of
              (p, q) \<Rightarrow> Some (sign * int (leading_fraction_digit (nat p) (nat q)))))"

text \<open>
  \<open>parseInt(v)\<close> for any value: \<open>v\<close> is converted to a string first. The strings of
  \<open>undefined\<close>, \<open>null\<close>, the booleans, \<open>NaN\<close>, the infinities and the dates all start with a
  letter (or a sign and a letter), so they read as \<open>NaN\<close>.
\<close>

fun parseInt_val :: "jsval \<Rightarrow> int option" where
  "parseInt_val (VStr s) = parseInt s"
| "parseInt_val (VNum (Fin x)) = parseInt_number x"
| "parseInt_val _ = None"

text \<open>\<open>ToNumber\<close> of a string: the whole trimmed string must be a numeric literal.\<close>

definition radix_literal :: "nat \<Rightarrow> string \<Rightarrow> jsnum" where
  "radix_literal radix ds =
     (if ds \<noteq> [] \<and> list_all (\<lambda>c. is_hex_digit c \<and> digit_val c < radix) ds
      then Fin (rat_of_nat (digits_value radix ds)) else NaN)"

definition string_to_number :: "string \<Rightarrow> jsnum" where
  "string_to_number s =
     (let t = trim s
      in if t = [] then Fin 0
         else if take 2 t = ''0x'' \<or> take 2 t = ''0X'' then radix_literal 16 (drop 2 t)
         else if take 2 t = ''0o'' \<or> take 2 t = ''0O'' then radix_literal 8 (drop 2 t)
         else if take 2 t = ''0b'' \<or> take 2 t = ''0B'' then radix_literal 2 (drop 2 t)
         else (case read_decimal t of (n, rest) \<Rightarrow> if rest = [] then n else NaN))"

fun to_number :: "jsval \<Rightarrow> jsnum" where
  "to_number VUndef = NaN"
| "to_number VNull = Fin 0"
| "to_number (VBool b) = Fin (if b then 1 else 0)"
| "to_number (VNum n) = n"
| "to_number (VStr s) = string_to_number s"
| "to_number (VDate t) = Fin (of_int t)"

text \<open>\<open>parseInt(x || '0')\<close>\<close>

definition parseInt_or_string_zero :: "jsval \<Rightarrow> int option" where
  "parseInt_or_string_zero x = parseInt_val (if truthy x then x else VStr ''0'')"

text \<open>\<open>n > 0\<close> for the result of \<open>parseInt\<close>: false for \<open>NaN\<close>.\<close>

definition positive :: "int option \<Rightarrow> bool" where
  "positive n = (case n of None \<Rightarrow> False | Some k \<Rightarrow> k > 0)"

definition determineOrderStatus :: "norm_record \<Rightarrow> Integration \<Rightarrow> app_error + jsval" where
  "determineOrderStatus result integration =
     (let integrationName = name integration
      in if integrationName = ''deliveryplatform1_order_history'' then
           (if truthy (result ''order_status'') then Inr (result ''order_status'')
            else if truthy (result ''cancelled_by'') then
              Inr (if result ''cancelled_by'' = VStr ''customer''
                   then VStr ''CANCELLED_CUSTOMER'' else VStr ''CANCELLED_RESTAURANT'')
            else Inr (if truthy (result ''completed_flag'') then VStr ''COMPLETED'' else VStr ''REJECTED''))
         else if integrationName = ''deliveryplatform3_total_order'' then
           (let customerCancelled = parseInt_or_string_zero (result ''customer_cancelled_count'');
                partnerCancelled = parseInt_or_string_zero (result ''partner_cancelled_count'')
            in if positive customerCancelled then Inr (VStr ''CANCELLED_CUSTOMER'')
               else if positive partnerCancelled then Inr (VStr ''CANCELLED_RESTAURANT'')
               else
                 (case result ''order_status_raw'' of
                    VUndef \<Rightarrow> Inr (VStr ''ACCEPTED'')
                  | VNull \<Rightarrow> Inr (VStr ''ACCEPTED'')
                  | VStr raw \<Rightarrow>
                      (let status = toLowerCase raw
                       in if status = ''good'' then Inr (VStr ''COMPLETED'')
                          else if status = ''bad'' then Inr (VStr ''REJECTED'')
                          else Inr (VStr ''ACCEPTED''))
                  | _ \<Rightarrow> Inl (TypeError ''result.order_status_raw?.toLowerCase is not a function'')))
         else if integrationName = ''deliveryplatform2_business_segments'' then
           Inr (if truthy (result ''prep_time_minutes'')
                   \<and> num_less (Fin 0) (to_number (result ''prep_time_minutes''))
                then VStr ''ACCEPTED'' else VStr ''COMPLETED'')
         else Inr (VStr ''ACCEPTED''))"

section \<open>The DeliveryPlatform2 date and time fix-up\<close>

text \<open>
  \<open>parseDeliveryPlatform2DateTime(dateValue, timeValue)\<close> on the values the mapper passes:
  \<open>.match\<close> exists on strings only. The patterns are \<open>/^(\d{4})-(\d{1,2})-(\d{1,2})$/\<close> and
  \<open>/^(\d{1,2}):(\d{2})$/\<close>.
\<close>

definition parseDeliveryPlatform2DateTime :: "host \<Rightarrow> jsval \<Rightarrow> jsval \<Rightarrow> app_error + jsval" where
  "parseDeliveryPlatform2DateTime H dateValue timeValue =
     (if \<not> truthy dateValue \<or> \<not> truthy timeValue then Inr VNull
      else
        (case dateValue of
           VStr ds \<Rightarrow>
             (case split_on CHR ''-'' ds of
                [year, month, day] \<Rightarrow>
                  if \<not> (digits_len 4 4 year \<and> digits_len 1 2 month \<and> digits_len 1 2 day) then Inr VNull
                  else
                    (case timeValue of
                       VStr ts \<Rightarrow>
                         (case split_on CHR '':'' ts of
                            [hour, minute] \<Rightarrow>
                              if \<not> (digits_len 1 2 hour \<and> digits_len 2 2 minute) then Inr VNull
                              else
                                (case date_local H (int (digits_value 10 year))
                                        (int (digits_value 10 month) - 1) (int (digits_value 10 day))
                                        (int (digits_value 10 hour)) (int (digits_value 10 minute)) 0 of
                                   None \<Rightarrow> Inr VNull
                                 | Some t \<Rightarrow> Inr (VDate t))
                          | _ \<Rightarrow> Inr VNull)
                     | _ \<Rightarrow> Inl (TypeError ''timeValue.match is not a function''))
              | _ \<Rightarrow> Inr VNull)
         | _ \<Rightarrow> Inl (TypeError ''dateValue.match is not a function'')))"

section \<open>The record mapper (IngestionEngine.transform)\<close>

text \<open>
  The loop over \<open>Object.entries(integration.field_mapping)\<close>. \<open>Inr None\<close> is the mapper's
  \<open>return null\<close>; \<open>Inl e\<close> is an exception leaving it.
\<close>

definition is_empty_value :: "jsval \<Rightarrow> bool" where
  "is_empty_value v = (v = VUndef \<or> v = VNull \<or> v = VStr [])"

fun map_fields ::
  "host \<Rightarrow> (string \<Rightarrow> string option) \<Rightarrow> (string \<times> FieldMap) list \<Rightarrow> norm_record
     \<Rightarrow> app_error + norm_record option" where
  "map_fields H raw [] result = Inr (Some result)"
| "map_fields H raw ((csvField, fieldMap) # rest) result =
     (case applyTransform H (raw csvField) fieldMap of
        Inl e \<Rightarrow> Inl e
      | Inr transformedValue \<Rightarrow>
          if required fieldMap \<and> is_empty_value transformedValue then Inr None
          else map_fields H raw rest (result(target fieldMap := transformedValue)))"

definition combine_date_time :: "host \<Rightarrow> Integration \<Rightarrow> norm_record \<Rightarrow> app_error + norm_record" where
  "combine_date_time H integration result =
     (if name integration = ''deliveryplatform2_business_segments''
         \<and> truthy (result ''order_datetime'') \<and> truthy (result ''order_time'') then
        (let dateValue = (case result ''order_datetime'' of
                            VDate t \<Rightarrow> VStr (date_iso_day H t) | v \<Rightarrow> v);
             timeValue = result ''order_time''
         in case parseDeliveryPlatform2DateTime H dateValue timeValue of
              Inl e \<Rightarrow> Inl e
            | Inr d \<Rightarrow> Inr (result(''order_datetime'' := d, ''order_time'' := VUndef)))
      else Inr result)"

definition transform ::
  "host \<Rightarrow> (string \<Rightarrow> string option) \<Rightarrow> Integration \<Rightarrow> app_error + norm_record option" where
  "transform H raw integration =
     (case map_fields H raw (field_mapping integration)
             ((\<lambda>_. VUndef)(''platform_id'' := VNum (Fin (of_int (platform_id integration))))) of
        Inl e \<Rightarrow> Inl e
      | Inr None \<Rightarrow> Inr None
      | Inr (Some mapped) \<Rightarrow>
          (case combine_date_time H integration mapped of
             Inl e \<Rightarrow> Inl e
           | Inr result \<Rightarrow>
               if ''orders'' \<in> set (tables integration) then
                 (case determineOrderStatus result integration of
                    Inl e \<Rightarrow> Inl e
                  | Inr status \<Rightarrow>
                      (let result' = result(''order_status'' := status)
                       in if \<not> truthy (result' ''platform_order_id'')
                             \<or> result' ''platform_order_id'' = VStr []
                          then Inr None else Inr (Some result')))
               else Inr (Some result)))"

section \<open>The storage layer (database.ts)\<close>

text \<open>
  The tables the engine's bookkeeping touches are modelled row by row. \<open>ingestion_jobs_seq\<close>
  is the last value of the \<open>SERIAL\<close> sequence behind \<open>ingestion_jobs.id\<close>, so that the ids
  handed out start at 1. The \<open>restaurants\<close>, \<open>orders\<close> and \<open>ratings\<close> tables are kept
  abstract, as a value of type \<open>'r\<close>. \<open>integrationCache\<close> is the in-memory cache of the
  \<open>Database\<close> object. Timestamps are left out. The bookkeeping statements themselves are
  taken to succeed; a failing row upsert is modelled (see \<open>processRecord\<close>).
\<close>

record IngestionJob =
  job_id :: nat
  job_integration_id :: nat
  job_file_path :: string
  job_status :: string
  job_total_rows :: nat
  job_processed_rows :: nat
  job_inserted_rows :: nat
  job_error_rows :: nat
  job_error_message :: "string option"

record DataSourceFile =
  dsf_integration_id :: nat
  dsf_file_path :: string
  dsf_file_hash :: string
  dsf_total_rows :: nat
  dsf_job_id :: nat

record 'r database =
  integrations :: "Integration list"
  integrationCache :: "(string \<times> Integration) list"
  ingestion_jobs :: "IngestionJob list"
  ingestion_jobs_seq :: nat
  data_source_files :: "DataSourceFile list"
  row_tables :: 'r

text \<open>\<open>[...headers].sort().join('|')\<close>\<close>

fun join_bar :: "string list \<Rightarrow> string" where
  "join_bar [] = []"
| "join_bar [x] = x"
| "join_bar (x # y # ys) = x @ ''|'' @ join_bar (y # ys)"

definition cacheKey_of :: "string list \<Rightarrow> string" where
  "cacheKey_of headers = join_bar (sort headers)"

text \<open>
  \<open>matchCount / fieldMappingKeys.length\<close>: \<open>None\<close> is the \<open>NaN\<close> of \<open>0 / 0\<close>, for a mapping
  with no keys. The quotient is an exact rational here. The comparisons the loop makes on
  it, with 0.7 and with another quotient, come out the same on doubles as long as the
  mappings have fewer than ten million keys: 7/10 as a quotient rounds to the double
  that the literal 0.7 denotes, and two different quotients are further apart than the
  rounding errors.
\<close>

definition match_score :: "string list \<Rightarrow> Integration \<Rightarrow> rat option" where
  "match_score headers integration =
     (let fieldMappingKeys = map fst (field_mapping integration);
          matchCount = length (filter (\<lambda>key. key \<in> set headers) fieldMappingKeys)
      in if length fieldMappingKeys = 0 then None
         else Some (rat_of_nat matchCount / rat_of_nat (length fieldMappingKeys)))"

text \<open>
  The \<open>for\<close> loop of \<open>getIntegrationByHeaders\<close> over the rows of the query, carrying
  \<open>bestMatch\<close> and \<open>bestScore\<close>.
\<close>

fun best_match_loop ::
  "string list \<Rightarrow> Integration list \<Rightarrow> Integration option \<Rightarrow> rat \<Rightarrow> Integration option" where
  "best_match_loop headers [] bestMatch bestScore = bestMatch"
| "best_match_loop headers (integration # rows) bestMatch bestScore =
     (case match_score headers integration of
        None \<Rightarrow> best_match_loop headers rows bestMatch bestScore
      | Some score \<Rightarrow>
          if score > 7 / 10 \<and> score > bestScore
          then best_match_loop headers rows (Some integration) score
          else best_match_loop headers rows bestMatch bestScore)"

definition getIntegrationByHeaders ::
  "'r database \<Rightarrow> string list \<Rightarrow> Integration option \<times> 'r database" where
  "getIntegrationByHeaders db headers =
     (let cacheKey = cacheKey_of headers
      in case map_of (integrationCache db) cacheKey of
           Some cached \<Rightarrow> (Some cached, db)
         | None \<Rightarrow>
             (let rows = filter is_active (integrations db);
                  bestMatch = best_match_loop headers rows None 0
              in case bestMatch of
                   None \<Rightarrow> (None, db)
                 | Some i \<Rightarrow> (Some i, db\<lparr>integrationCache := (cacheKey, i) # integrationCache db\<rparr>)))"

text \<open>\<open>SELECT * FROM integrations WHERE name = $1 AND is_active = true\<close>, first row or null.\<close>

definition getIntegrationByName :: "'r database \<Rightarrow> string \<Rightarrow> Integration option" where
  "getIntegrationByName db key = find (\<lambda>i. name i = key \<and> is_active i) (integrations db)"

text \<open>The second argument, \<open>filePath\<close>, does not occur in the query.\<close>

definition isFileProcessed :: "'r database \<Rightarrow> nat \<Rightarrow> string \<Rightarrow> string \<Rightarrow> bool" where
  "isFileProcessed db integrationId filePath fileHash =
     (\<exists>f \<in> set (data_source_files db).
        dsf_integration_id f = integrationId \<and> dsf_file_hash f = fileHash)"

text \<open>The columns not given take their defaults: status \<open>pending\<close>, counters 0.\<close>

definition createJob :: "'r database \<Rightarrow> nat \<Rightarrow> string \<Rightarrow> nat \<Rightarrow> nat \<times> 'r database" where
  "createJob db integrationId filePath totalRows =
     (let newId = Suc (ingestion_jobs_seq db);
          job = \<lparr>job_id = newId, job_integration_id = integrationId, job_file_path = filePath,
                 job_status = ''pending'', job_total_rows = totalRows, job_processed_rows = 0,
                 job_inserted_rows = 0, job_error_rows = 0, job_error_message = None\<rparr>
      in (newId, db\<lparr>ingestion_jobs := ingestion_jobs db @ [job], ingestion_jobs_seq := newId\<rparr>))"

text \<open>
  \<open>updateJob\<close>: a counter is passed as \<open>stats.x || null\<close>, and \<open>COALESCE\<close> keeps the column
  for \<open>null\<close>, so a counter that is absent or 0 leaves its column as it is.
\<close>

record JobStats =
  st_status :: string
  st_totalRows :: "nat option"
  st_processedRows :: "nat option"
  st_insertedRows :: "nat option"
  st_errorRows :: "nat option"
  st_errorMessage :: "string option"

definition coalesce_count :: "nat option \<Rightarrow> nat \<Rightarrow> nat" where
  "coalesce_count new old = (case new of None \<Rightarrow> old | Some n \<Rightarrow> if n = 0 then old else n)"

definition coalesce_text :: "string option \<Rightarrow> string option \<Rightarrow> string option" where
  "coalesce_text new old = (case new of None \<Rightarrow> old | Some m \<Rightarrow> if m = [] then old else Some m)"

definition update_job_row :: "JobStats \<Rightarrow> IngestionJob \<Rightarrow> IngestionJob" where
  "update_job_row stats j =
     j\<lparr>job_status := st_status stats,
       job_total_rows := coalesce_count (st_totalRows stats) (job_total_rows j),
       job_processed_rows := coalesce_count (st_processedRows stats) (job_processed_rows j),
       job_inserted_rows := coalesce_count (st_insertedRows stats) (job_inserted_rows j),
       job_error_rows := coalesce_count (st_errorRows stats) (job_error_rows j),
       job_error_message := coalesce_text (st_errorMessage stats) (job_error_message j)\<rparr>"

definition updateJob :: "'r database \<Rightarrow> nat \<Rightarrow> JobStats \<Rightarrow> 'r database" where
  "updateJob db jobId stats =
     db\<lparr>ingestion_jobs :=
          map (\<lambda>j. if job_id j = jobId then update_job_row stats j else j) (ingestion_jobs db)\<rparr>"

definition recordProcessedFile ::
  "'r database \<Rightarrow> nat \<Rightarrow> string \<Rightarrow> string \<Rightarrow> nat \<Rightarrow> nat \<Rightarrow> 'r database" where
  "recordProcessedFile db integrationId filePath fileHash totalRows jobId =
     db\<lparr>data_source_files := data_source_files db @
          [\<lparr>dsf_integration_id = integrationId, dsf_file_path = filePath, dsf_file_hash = fileHash,
            dsf_total_rows = totalRows, dsf_job_id = jobId\<rparr>]\<rparr>"

section \<open>The stream ingestor (IngestionEngine.processRecord, stream, processFile)\<close>

text \<open>
  \<open>processRecord\<close> upserts the restaurant, the order and the rating of one normalized
  record. Its SQL is not modelled: \<open>upserts record integration r\<close> stands for the tables
  after these calls, started on the tables \<open>r\<close>, and for whether all of them returned.
  Whatever a call throws, \<open>processRecord\<close> rethrows as a \<open>ProcessingError\<close>.
\<close>

type_synonym 'r upserts = "norm_record \<Rightarrow> Integration \<Rightarrow> 'r \<Rightarrow> bool \<times> 'r"

definition processRecord ::
  "'r upserts \<Rightarrow> norm_record \<Rightarrow> Integration \<Rightarrow> 'r \<Rightarrow> app_error option \<times> 'r" where
  "processRecord U record integration r =
     (case U record integration r of
        (True, r') \<Rightarrow> (None, r')
      | (False, r') \<Rightarrow>
          (Some (ProcessingError ''Failed to process record'' [(''integration'', VStr (name integration))]), r'))"

text \<open>
  The body of the \<open>for await\<close> loop for the lines after the first, with the counters
  \<open>processed\<close> and \<open>skipped\<close>. \<open>Inl e\<close> is an exception leaving the loop; the tables are
  returned as the failing row left them.
\<close>

fun data_lines ::
  "host \<Rightarrow> 'r upserts \<Rightarrow> string list \<Rightarrow> Integration \<Rightarrow> string list \<Rightarrow> 'r \<Rightarrow> nat \<Rightarrow> nat
     \<Rightarrow> (app_error + nat \<times> nat) \<times> 'r" where
  "data_lines H U headers integration [] r processed skipped = (Inr (processed, skipped), r)"
| "data_lines H U headers integration (line # rest) r processed skipped =
     (let cells = parseCSVLine line;
          record = build_record headers cells
      in case transform H record integration of
           Inl e \<Rightarrow> (Inl e, r)
         | Inr None \<Rightarrow> data_lines H U headers integration rest r processed (skipped + 1)
         | Inr (Some transformed) \<Rightarrow>
             (case processRecord U transformed integration r of
                (Some e, r') \<Rightarrow> (Inl e, r')
              | (None, r') \<Rightarrow> data_lines H U headers integration rest r' (processed + 1) skipped))"

text \<open>\<open>if (integrationKey)\<close>: a key that is given and not empty.\<close>

definition key_given :: "string option \<Rightarrow> string option" where
  "key_given integrationKey =
     (case integrationKey of None \<Rightarrow> None | Some k \<Rightarrow> if k = [] then None else Some k)"

definition resolve_integration ::
  "'r database \<Rightarrow> string option \<Rightarrow> string list \<Rightarrow> Integration option \<times> 'r database" where
  "resolve_integration db integrationKey headers =
     (case key_given integrationKey of
        Some k \<Rightarrow> (getIntegrationByName db k, db)
      | None \<Rightarrow> getIntegrationByHeaders db headers)"

text \<open>
  \<open>stream\<close>, on the lines that \<open>readline\<close> delivers for the file. The result is what the
  method returns (\<open>processed\<close>, \<open>skipped\<close>) or throws, and the storage it leaves.
\<close>

definition stream ::
  "host \<Rightarrow> 'r upserts \<Rightarrow> 'r database \<Rightarrow> string \<Rightarrow> string \<Rightarrow> string option \<Rightarrow> string list
     \<Rightarrow> (app_error + nat \<times> nat) \<times> 'r database" where
  "stream H U db path hash integrationKey lines =
     (case lines of
        [] \<Rightarrow> (Inr (0, 0), db)
      | line1 # rest \<Rightarrow>
          (let headers = parse_headers line1
           in case resolve_integration db integrationKey headers of
                (None, db1) \<Rightarrow>
                  (Inl (ValidationError
                         (case key_given integrationKey of
                            Some k \<Rightarrow> ''Integration not found: '' @ k
                          | None \<Rightarrow> ''Could not detect integration'')
                         (case key_given integrationKey of
                            Some k \<Rightarrow> [(''integrationKey'', VStr k)] | None \<Rightarrow> [])), db1)
              | (Some integration, db1) \<Rightarrow>
                  if isFileProcessed db1 (integration_id integration) [] hash then (Inr (0, 0), db1)
                  else
                    (case createJob db1 (integration_id integration) path 0 of
                       (jobId, db2) \<Rightarrow>
                         (case data_lines H U headers integration rest (row_tables db2) 0 0 of
                            (Inl e, r) \<Rightarrow> (Inl e, db2\<lparr>row_tables := r\<rparr>)
                          | (Inr (processed, skipped), r) \<Rightarrow>
                              (let lineCount = length lines;
                                   db3 = db2\<lparr>row_tables := r\<rparr>
                               in if jobId \<noteq> 0 then
                                    (let db4 = updateJob db3 jobId
                                                 \<lparr>st_status = ''completed'',
                                                  st_totalRows = Some (lineCount - 1),
                                                  st_processedRows = Some processed,
                                                  st_insertedRows = Some processed,
                                                  st_errorRows = Some skipped,
                                                  st_errorMessage = None\<rparr>;
                                         db5 = recordProcessedFile db4 (integration_id integration)
                                                 path hash (lineCount - 1) jobId
                                     in (Inr (processed, skipped), db5))
                                  else (Inr (processed, skipped), db3))))))"

text \<open>
  The file system as \<open>processFile\<close> sees it: a path that exists leads to the lines of the
  file and to the SHA-256 digest of its bytes, both determined by the bytes.
\<close>

record csv_file =
  file_lines :: "string list"
  file_sha256 :: string

definition isValidFilePath :: "(string \<Rightarrow> csv_file option) \<Rightarrow> string \<Rightarrow> bool" where
  "isValidFilePath fs path = (path \<noteq> [] \<and> fs path \<noteq> None)"

text \<open>
  \<open>processFile\<close>: the checks, the hash, the stream, and the \<open>catch\<close> that lets a
  \<open>ValidationError\<close> or \<open>ProcessingError\<close> through and wraps anything else. Its result
  is the pair of counters it logs, or the error it throws.
\<close>

definition rethrow :: "string \<Rightarrow> string option \<Rightarrow> app_error \<Rightarrow> app_error" where
  "rethrow path integrationKey e =
     (case e of
        ValidationError m c \<Rightarrow> e
      | ProcessingError m c \<Rightarrow> e
      | _ \<Rightarrow> ProcessingError ''Failed to process file''
               ((''path'', VStr path) #
                (case integrationKey of None \<Rightarrow> [] | Some k \<Rightarrow> [(''integrationKey'', VStr k)])))"

definition processFile ::
  "host \<Rightarrow> 'r upserts \<Rightarrow> (string \<Rightarrow> csv_file option) \<Rightarrow> 'r database \<Rightarrow> string \<Rightarrow> string option
     \<Rightarrow> (app_error + nat \<times> nat) \<times> 'r database" where
  "processFile H U fs db path integrationKey =
     (if \<not> isValidFilePath fs path then
        (Inl (ValidationError ''Invalid file path'' [(''path'', VStr path)]), db)
      else if (case key_given integrationKey of None \<Rightarrow> False | Some k \<Rightarrow> \<not> isValidIntegrationKey k) then
        (Inl (ValidationError ''Invalid integration key''
               (case integrationKey of None \<Rightarrow> [] | Some k \<Rightarrow> [(''integrationKey'', VStr k)])), db)
      else
        (case fs path of
           None \<Rightarrow> (Inl (ValidationError ''Invalid file path'' [(''path'', VStr path)]), db)
         | Some file \<Rightarrow>
             (case stream H U db path (file_sha256 file) integrationKey (file_lines file) of
                (Inl e, db') \<Rightarrow> (Inl (rethrow path integrationKey e), db')
              | (Inr res, db') \<Rightarrow> (Inr res, db'))))"

section \<open>The seeded configuration (seed-integrations.ts)\<close>

text \<open>A \<open>FieldMap\<close> with only its target given.\<close>

definition field :: "string \<Rightarrow> FieldMap" where
  "field t = \<lparr>target = t, ftype = None, enum_values = None, ftransform = None,
              required = False, fdefault = None\<rparr>"

text \<open>
  The integration \<open>deliveryplatform3_total_order\<close> as the seed script writes it, with the
  row id and the platform id the database assigned.
\<close>

definition deliveryPlatform3Integration :: "nat \<Rightarrow> int \<Rightarrow> Integration" where
  "deliveryPlatform3Integration rowId deliveryPlatform3Id =
     \<lparr>integration_id = rowId,
      name = ''deliveryplatform3_total_order'',
      platform_id = deliveryPlatform3Id,
      field_mapping =
        [(''Partner'', (field ''restaurant_name'')\<lparr>required := True\<rparr>),
         (''Order Id'', (field ''platform_order_id'')\<lparr>required := True\<rparr>),
         (''Order Status'', (field ''order_status_raw'')\<lparr>ftransform := Some ''deliveryPlatform3OrderStatus''\<rparr>),
         (''Total Order Status - Customer Cancelled'',
            (field ''customer_cancelled_count'')\<lparr>ftype := Some ''number''\<rparr>),
         (''Total Order Status - Partner Cancelled'',
            (field ''partner_cancelled_count'')\<lparr>ftype := Some ''number''\<rparr>),
         (''Order Datetime'',
            (field ''order_datetime'')\<lparr>ftype := Some ''date'', ftransform := Some ''parseDate''\<rparr>),
         (''Total Total Order Value'', (field ''order_value'')\<lparr>ftype := Some ''number''\<rparr>),
         (''Total Applied Discount Amount'', (field ''discount_amount'')\<lparr>ftype := Some ''number''\<rparr>),
         (''Total Basket Size'', (field ''basket_size'')\<lparr>ftype := Some ''number''\<rparr>),
         (''Delivery/Collection'',
            (field ''delivery_type'')\<lparr>ftype := Some ''enum'',
              enum_values := Some [''Delivery'', ''Collection''], ftransform := Some ''deliveryType''\<rparr>),
         (''Average Courier Arrival to Collected'',
            (field ''total_delivery_time_minutes'')\<lparr>ftype := Some ''number'',
              ftransform := Some ''timeToMinutes''\<rparr>)],
      tables = [''orders'', ''restaurants''],
      is_active = True\<rparr>"

section \<open>A host for worked examples\<close>

text \<open>
  A stand-in for the host's \<open>Date\<close> in the worked examples: it parses the one string
  \<open>1970-01-01\<close>, as the epoch, and prints every date as that day.
\<close>

definition example_host :: host where
  "example_host =
     \<lparr>date_parse = (\<lambda>s. if s = ''1970-01-01'' then Some 0 else None),
      date_local = (\<lambda>y m d h mi s. Some 0),
      date_iso_day = (\<lambda>t. ''1970-01-01'')\<rparr>"

section \<open>Reference notions the claims are stated against\<close>

text \<open>
  A line as a CSV writer with RFC 4180 quoting produces it, to state what the parser
  recovers: a field is written bare, or between double quotes with every double quote of
  its text doubled; fields are joined by commas. A bare field holds no double quote and
  no comma.
\<close>

datatype csv_field = Quoted string | Bare string

fun escape_quotes :: "string \<Rightarrow> string" where
  "escape_quotes [] = []"
| "escape_quotes (c # cs) = (if c = dquote then [dquote, dquote] else [c]) @ escape_quotes cs"

fun render_field :: "csv_field \<Rightarrow> string" where
  "render_field (Quoted q) = dquote # escape_quotes q @ [dquote]"
| "render_field (Bare u) = u"

fun field_text :: "csv_field \<Rightarrow> string" where
  "field_text (Quoted q) = q"
| "field_text (Bare u) = u"

fun bare_ok :: "csv_field \<Rightarrow> bool" where
  "bare_ok (Quoted q) = True"
| "bare_ok (Bare u) = (dquote \<notin> set u \<and> CHR '','' \<notin> set u)"

fun render_line :: "csv_field list \<Rightarrow> string" where
  "render_line [] = []"
| "render_line [f] = render_field f"
| "render_line (f # g # fs) = render_field f @ CHR '','' # render_line (g # fs)"

text \<open>
  The value under which a normalized record holds a count of \<open>n\<close>: the number \<open>n\<close> (a
  field of type \<open>number\<close>), the decimal digits of \<open>n\<close> (a field without a type), or, for
  a count of zero, no value at all (an empty cell is mapped to \<open>null\<close>, a column that is
  not mapped leaves the property \<open>undefined\<close>).
\<close>

fun holds_count :: "jsval \<Rightarrow> nat \<Rightarrow> bool" where
  "holds_count (VNum (Fin x)) n = (x = rat_of_nat n)"
| "holds_count (VStr s) n = (s = nat_digits n)"
| "holds_count VUndef n = (n = 0)"
| "holds_count VNull n = (n = 0)"
| "holds_count _ n = False"

text \<open>
  Integration matching as the specification words it: the fraction of an integration's
  field-mapping keys that occur among the headers (0 for a mapping without keys), and the
  first of the given integrations whose fraction exceeds 7/10 and is the highest of all.
\<close>

definition key_fraction :: "string list \<Rightarrow> Integration \<Rightarrow> rat" where
  "key_fraction headers i =
     (if field_mapping i = [] then 0
      else rat_of_nat (length (filter (\<lambda>key. key \<in> set headers) (map fst (field_mapping i))))
           / rat_of_nat (length (field_mapping i)))"

definition first_best :: "string list \<Rightarrow> Integration list \<Rightarrow> Integration option" where
  "first_best headers rows =
     find (\<lambda>i. key_fraction headers i > 7 / 10
               \<and> (\<forall>j \<in> set rows. key_fraction headers j \<le> key_fraction headers i)) rows"

text \<open>An integration with the ten columns \<open>a\<close> to \<open>j\<close>, and a storage holding only it.\<close>

definition ten_columns :: Integration where
  "ten_columns =
     \<lparr>integration_id = 1, name = ''ten_columns'', platform_id = 1,
      field_mapping = map (\<lambda>k. (k, field k))
        [''a'', ''b'', ''c'', ''d'', ''e'', ''f'', ''g'', ''h'', ''i'', ''j''],
      tables = [], is_active = True\<rparr>"

definition empty_storage :: "Integration list \<Rightarrow> unit database" where
  "empty_storage configured =
     \<lparr>integrations = configured, integrationCache = [], ingestion_jobs = [],
      ingestion_jobs_seq = 0, data_source_files = [], row_tables = ()\<rparr>"

text \<open>Row upserts that always succeed, on tables that are left abstract.\<close>

definition upserts_ok :: "unit upserts" where
  "upserts_ok record integration r = (True, r)"

text \<open>
  Files for the worked examples, all with the eleven columns of
  \<open>deliveryplatform3_total_order\<close>: a file with a complete row and a row that stops after
  the restaurant, stored under two paths; an empty file; and a file whose first row has
  the minutes 75 in its time column.
\<close>

definition dp3_header :: string where
  "dp3_header = ''Partner,Order Id,Order Status,Total Order Status - Customer Cancelled,Total Order Status - Partner Cancelled,Order Datetime,Total Total Order Value,Total Applied Discount Amount,Total Basket Size,Delivery/Collection,Average Courier Arrival to Collected''"

definition good_row :: string where
  "good_row = ''Nando,7,Good,0,0,1970-01-01,12.50,0,3,Delivery,00:07:30''"

definition bad_time_row :: string where
  "bad_time_row = ''Nando,8,Good,0,0,1970-01-01,12.50,0,3,Delivery,12:75''"

definition example_files :: "string \<Rightarrow> csv_file option" where
  "example_files p =
     (if p = ''a.csv'' \<or> p = ''copy/b.csv'' then
        Some \<lparr>file_lines = [dp3_header, good_row, ''Nando''], file_sha256 = ''9f2c''\<rparr>
      else if p = ''empty.csv'' then Some \<lparr>file_lines = [], file_sha256 = ''e3b0''\<rparr>
      else if p = ''bad_time.csv'' then
        Some \<lparr>file_lines = [dp3_header, bad_time_row, good_row], file_sha256 = ''4d1a''\<rparr>
      else None)"

text \<open>Row upserts of which the first call throws.\<close>

definition upserts_failing :: "unit upserts" where
  "upserts_failing record integration r = (False, r)"

text \<open>
  The storage holding the seeded \<open>deliveryplatform3_total_order\<close> only, and what it holds
  after the file \<open>a.csv\<close> has been processed: the cached match, the completed job and the
  ledger entry.
\<close>

definition seeded_storage :: "unit database" where
  "seeded_storage = empty_storage [deliveryPlatform3Integration 1 1]"

definition storage_after_a :: "unit database" where
  "storage_after_a =
     seeded_storage
       \<lparr>integrationCache := [(cacheKey_of (parse_headers dp3_header), deliveryPlatform3Integration 1 1)],
        ingestion_jobs :=
          [\<lparr>job_id = 1, job_integration_id = 1, job_file_path = ''a.csv'', job_status = ''completed'',
            job_total_rows = 2, job_processed_rows = 1, job_inserted_rows = 1, job_error_rows = 1,
            job_error_message = None\<rparr>],
        ingestion_jobs_seq := 1,
        data_source_files :=
          [\<lparr>dsf_integration_id = 1, dsf_file_path = ''a.csv'', dsf_file_hash = ''9f2c'',
            dsf_total_rows = 2, dsf_job_id = 1\<rparr>]\<rparr>"

section \<open>The CSV line parser: proofs\<close>

lemma dropWhile_rev_trim: "dropWhile is_ws (rev (trim s)) = rev (trim s)"
  by (simp add: trim_def dropWhile_idem)

lemma last_dropWhile_nonempty:
  "dropWhile P xs \<noteq> [] \<Longrightarrow> last (dropWhile P xs) = last xs"
  by (induction xs) (auto split: if_splits)

lemma trim_head: "trim s \<noteq> [] \<Longrightarrow> \<not> is_ws (hd (trim s))"
proof -
  assume ne: "trim s \<noteq> []"
  let ?u = "dropWhile is_ws s"
  let ?v = "dropWhile is_ws (rev ?u)"
  have t: "trim s = rev ?v" by (simp add: trim_def)
  from ne t have vne: "?v \<noteq> []" by simp
  have une: "?u \<noteq> []"
  proof
    assume a: "?u = []"
    have "?v = []" unfolding a by simp
    with vne show False by simp
  qed
  have "hd (rev ?v) = last ?v" using vne by (simp add: hd_rev)
  also have "last ?v = last (rev ?u)" using vne by (rule last_dropWhile_nonempty)
  also have "\<dots> = hd ?u" using une by (simp add: last_rev)
  finally have "hd (trim s) = hd ?u" using t by simp
  moreover have "\<not> is_ws (hd ?u)" using une hd_dropWhile by metis
  ultimately show ?thesis by simp
qed

lemma trim_idem: "trim (trim s) = trim s"
proof (cases "trim s = []")
  case True
  have "trim [] = []" by (simp add: trim_def)
  with True show ?thesis by simp
next
  case False
  then have "\<not> is_ws (hd (trim s))" by (rule trim_head)
  with False have "dropWhile is_ws (trim s) = trim s"
    by (cases "trim s") auto
  then have "trim (trim s) = rev (dropWhile is_ws (rev (trim s)))"
    by (simp add: trim_def)
  also have "\<dots> = rev (rev (trim s))" by (simp only: dropWhile_rev_trim)
  finally show ?thesis by simp
qed

lemma csv_loop_trimmed:
  "\<forall>f \<in> set res. trim f = f \<Longrightarrow> \<forall>f \<in> set (csv_loop q cur res l). trim f = f"
proof (induction q cur res l rule: csv_loop.induct)
  case (1 inQuotes currentField result)
  then show ?case by (simp add: trim_idem)
next
  case (2 inQuotes currentField result c rest)
  have ext: "\<forall>f \<in> set (result @ [trim currentField]). trim f = f"
    using "2.prems" by (simp add: trim_idem)
  show ?case
  proof (cases "c = dquote")
    case True
    show ?thesis
    proof (cases rest)
      case Nil
      have "csv_loop inQuotes currentField result (c # rest)
              = csv_loop (\<not> inQuotes) currentField result rest"
        apply (subst csv_loop.simps(2)) using True Nil by (simp del: csv_loop.simps)
      with "2.IH"(1)[OF True Nil "2.prems"] show ?thesis by simp
    next
      case (Cons d rest')
      show ?thesis
      proof (cases "inQuotes \<and> d = dquote")
        case esc: True
        have "csv_loop inQuotes currentField result (c # rest)
                = csv_loop inQuotes (currentField @ [dquote]) result rest'"
          apply (subst csv_loop.simps(2)) using True Cons esc by (simp del: csv_loop.simps)
        with "2.IH"(2)[OF True Cons esc "2.prems"] show ?thesis by simp
      next
        case noesc: False
        have "csv_loop inQuotes currentField result (c # rest)
                = csv_loop (\<not> inQuotes) currentField result rest"
          apply (subst csv_loop.simps(2)) using True Cons noesc by (auto simp del: csv_loop.simps)
        with "2.IH"(3)[OF True Cons noesc "2.prems"] show ?thesis by simp
      qed
    qed
  next
    case False
    show ?thesis
    proof (cases "c = CHR '','' \<and> \<not> inQuotes")
      case comma: True
      have "csv_loop inQuotes currentField result (c # rest)
              = csv_loop inQuotes [] (result @ [trim currentField]) rest"
        apply (subst csv_loop.simps(2)) using False comma by (simp del: csv_loop.simps)
      with "2.IH"(4)[OF False comma ext] show ?thesis by simp
    next
      case other: False
      have "csv_loop inQuotes currentField result (c # rest)
              = csv_loop inQuotes (currentField @ [c]) result rest"
        apply (subst csv_loop.simps(2)) using False other by (auto simp del: csv_loop.simps)
      with "2.IH"(5)[OF False other "2.prems"] show ?thesis by simp
    qed
  qed
qed

lemma split_on_nonempty: "split_on d s \<noteq> []"
  by (induction s) (auto split: list.splits)

lemma csv_loop_no_quotes:
  "dquote \<notin> set l \<Longrightarrow>
   csv_loop False cur res l =
     res @ map trim ((cur @ hd (split_on CHR '','' l)) # tl (split_on CHR '','' l))"
proof (induction l arbitrary: cur res)
  case Nil
  then show ?case by simp
next
  case (Cons c l)
  obtain p ps where sp: "split_on CHR '','' l = p # ps"
    using split_on_nonempty[of "CHR '',''" l] by (cases "split_on CHR '','' l") auto
  from Cons.prems have nq: "c \<noteq> dquote" "dquote \<notin> set l" by auto
  show ?case
  proof (cases "c = CHR '',''")
    case True
    then have "csv_loop False cur res (c # l) = csv_loop False [] (res @ [trim cur]) l"
      by simp
    also have "\<dots> = (res @ [trim cur]) @ map trim (([] @ hd (split_on CHR '','' l)) # tl (split_on CHR '','' l))"
      by (rule Cons.IH[OF nq(2)])
    finally show ?thesis using True sp by simp
  next
    case False
    then have "csv_loop False cur res (c # l) = csv_loop False (cur @ [c]) res l"
      using nq(1) by simp
    also have "\<dots> = res @ map trim (((cur @ [c]) @ hd (split_on CHR '','' l)) # tl (split_on CHR '','' l))"
      by (rule Cons.IH[OF nq(2)])
    finally show ?thesis using False sp by simp
  qed
qed

lemma csv_loop_open: "csv_loop False cur res (dquote # l) = csv_loop True cur res l"
  by (cases l) simp_all

lemma csv_loop_escaped_content:
  "rest = [] \<or> hd rest \<noteq> dquote \<Longrightarrow>
   csv_loop True cur res (escape_quotes q @ dquote # rest) = csv_loop False (cur @ q) res rest"
proof (induction q arbitrary: cur)
  case Nil
  then show ?case by (cases rest) simp_all
next
  case (Cons c q)
  show ?case
  proof (cases "c = dquote")
    case True
    then have "csv_loop True cur res (escape_quotes (c # q) @ dquote # rest)
                 = csv_loop True (cur @ [dquote]) res (escape_quotes q @ dquote # rest)"
      by simp
    also have "\<dots> = csv_loop False ((cur @ [dquote]) @ q) res rest"
      by (rule Cons.IH[OF Cons.prems])
    finally show ?thesis using True by simp
  next
    case False
    then have "csv_loop True cur res (escape_quotes (c # q) @ dquote # rest)
                 = csv_loop True (cur @ [c]) res (escape_quotes q @ dquote # rest)"
      by simp
    also have "\<dots> = csv_loop False ((cur @ [c]) @ q) res rest"
      by (rule Cons.IH[OF Cons.prems])
    finally show ?thesis by simp
  qed
qed

lemma csv_loop_bare_content:
  "dquote \<notin> set u \<Longrightarrow> CHR '','' \<notin> set u \<Longrightarrow>
   csv_loop False cur res (u @ rest) = csv_loop False (cur @ u) res rest"
proof (induction u arbitrary: cur)
  case Nil
  then show ?case by simp
next
  case (Cons c u)
  from Cons.prems have c: "c \<noteq> dquote" "c \<noteq> CHR '',''" and u: "dquote \<notin> set u" "CHR '','' \<notin> set u"
    by auto
  have "csv_loop False cur res ((c # u) @ rest) = csv_loop False (cur @ [c]) res (u @ rest)"
    using c by simp
  also have "\<dots> = csv_loop False ((cur @ [c]) @ u) res rest"
    by (rule Cons.IH[OF u])
  finally show ?case by simp
qed

lemma csv_loop_field:
  "bare_ok f \<Longrightarrow> rest = [] \<or> hd rest \<noteq> dquote \<Longrightarrow>
   csv_loop False [] res (render_field f @ rest) = csv_loop False (field_text f) res rest"
proof (cases f)
  case (Quoted q)
  assume r: "rest = [] \<or> hd rest \<noteq> dquote"
  have "csv_loop False [] res (render_field f @ rest)
          = csv_loop True [] res (escape_quotes q @ dquote # rest)"
    using Quoted csv_loop_open[of "[]" res "escape_quotes q @ dquote # rest"] by simp
  also have "\<dots> = csv_loop False ([] @ q) res rest"
    by (rule csv_loop_escaped_content[OF r])
  finally show ?thesis using Quoted by simp
next
  case (Bare u)
  assume "bare_ok f"
  with Bare have "dquote \<notin> set u" "CHR '','' \<notin> set u" by auto
  from csv_loop_bare_content[OF this, of "[]" res rest] Bare show ?thesis by simp
qed

lemma csv_loop_render_line:
  "fs \<noteq> [] \<Longrightarrow> list_all bare_ok fs \<Longrightarrow>
   csv_loop False [] res (render_line fs) = res @ map (\<lambda>f. trim (field_text f)) fs"
proof (induction fs arbitrary: res rule: render_line.induct)
  case 1
  then show ?case by simp
next
  case (2 f)
  then have "bare_ok f" by simp
  from csv_loop_field[OF this, of "[]" res] show ?case by simp
next
  case (3 f g fs)
  then have f: "bare_ok f" and rest: "list_all bare_ok (g # fs)" by simp_all
  have "csv_loop False [] res (render_line (f # g # fs))
          = csv_loop False (field_text f) res (CHR '','' # render_line (g # fs))"
    using csv_loop_field[OF f, of "CHR '','' # render_line (g # fs)" res] by simp
  also have "\<dots> = csv_loop False [] (res @ [trim (field_text f)]) (render_line (g # fs))"
    by simp
  also have "\<dots> = (res @ [trim (field_text f)]) @ map (\<lambda>f. trim (field_text f)) (g # fs)"
    by (rule "3.IH") (use rest in simp_all)
  finally show ?case by simp
qed

lemma parse_headers_eq: "parse_headers line = parseCSVLine line"
proof -
  have "\<forall>f \<in> set (parseCSVLine line). trim f = f"
    unfolding parseCSVLine_def by (rule csv_loop_trimmed) simp
  then show ?thesis unfolding parse_headers_def by (simp add: map_idI)
qed

lemma build_record_dom_aux:
  "dom (fold (\<lambda>(h, i) record. record(h \<mapsto> g i)) ps m) = dom m \<union> fst ` set ps"
  by (induction ps arbitrary: m) auto

lemma build_record_dom: "dom (build_record headers cells) = set headers"
proof -
  have m: "map fst (zip headers [0 ..< length headers]) = headers"
    by (rule map_fst_zip) simp
  have "fst ` set (zip headers [0 ..< length headers])
          = set (map fst (zip headers [0 ..< length headers]))"
    by (simp only: set_map)
  then have "fst ` set (zip headers [0 ..< length headers]) = set headers"
    by (simp only: m)
  then show ?thesis
    unfolding build_record_def by (simp add: build_record_dom_aux)
qed

text \<open>
  Claim C10. Every field \<open>parseCSVLine\<close> returns is trimmed, the content of a quoted field
  included. A line without double quotes is split at each of its commas. Of a line as a
  CSV writer produces it, the parser returns the trimmed texts of the fields: a comma
  inside quotes does not split, and a doubled quote inside quotes gives one quote. The
  header names are trimmed once more, which changes nothing, and are the keys of the raw
  record.
\<close>

theorem parseCSVLine_trims_and_splits:
  "(\<forall>f \<in> set (parseCSVLine line). trim f = f)
   \<and> (dquote \<notin> set line \<longrightarrow> parseCSVLine line = map trim (split_on CHR '','' line))
   \<and> (fs \<noteq> [] \<and> list_all bare_ok fs \<longrightarrow>
        parseCSVLine (render_line fs) = map (\<lambda>f. trim (field_text f)) fs)
   \<and> parse_headers line = map trim (parseCSVLine line)
   \<and> parse_headers line = parseCSVLine line
   \<and> dom (build_record (parse_headers line) cells) = set (parseCSVLine line)"
proof -
  have trimmed: "\<forall>f \<in> set (parseCSVLine line). trim f = f"
    unfolding parseCSVLine_def by (rule csv_loop_trimmed) simp
  have plain: "dquote \<notin> set line \<longrightarrow> parseCSVLine line = map trim (split_on CHR '','' line)"
  proof
    assume nq: "dquote \<notin> set line"
    obtain p ps where sp: "split_on CHR '','' line = p # ps"
      using split_on_nonempty[of "CHR '',''" line] by (cases "split_on CHR '','' line") auto
    from csv_loop_no_quotes[OF nq, of "[]" "[]"] sp
    show "parseCSVLine line = map trim (split_on CHR '','' line)"
      by (simp add: parseCSVLine_def)
  qed
  have written: "fs \<noteq> [] \<and> list_all bare_ok fs \<longrightarrow>
      parseCSVLine (render_line fs) = map (\<lambda>f. trim (field_text f)) fs"
    using csv_loop_render_line[of fs "[]"] by (simp add: parseCSVLine_def)
  have keys: "dom (build_record (parse_headers line) cells) = set (parseCSVLine line)"
    by (simp add: build_record_dom parse_headers_eq)
  have again: "parse_headers line = map trim (parseCSVLine line)"
    by (simp add: parse_headers_def)
  have same: "parse_headers line = parseCSVLine line"
    by (rule parse_headers_eq)
  from trimmed plain written again same keys show ?thesis
    by (intro conjI)
qed

theorem parseCSVLine_trims_and_splits_witness:
  "parseCSVLine '' a , b'' = [''a'', ''b'']
   \<and> parseCSVLine (render_line [Bare '' x '', Quoted ('' p, '' @ [dquote] @ ''q'' @ [dquote] @ '' '')])
       = [''x'', ''p, '' @ [dquote] @ ''q'' @ [dquote]]
   \<and> parse_headers '' a , b'' = [''a'', ''b'']
   \<and> dom (build_record (parse_headers '' a , b'') [''1'']) = {''a'', ''b''}"
proof -
  note w = parseCSVLine_trims_and_splits
          [of "'' a , b''" "[Bare '' x '', Quoted ('' p, '' @ [dquote] @ ''q'' @ [dquote] @ '' '')]" "[''1'']"]
  have a: "parseCSVLine '' a , b'' = [''a'', ''b'']"
    using w by (simp add: trim_def is_ws_def)
  have b: "parseCSVLine (render_line [Bare '' x '', Quoted ('' p, '' @ [dquote] @ ''q'' @ [dquote] @ '' '')])
       = [''x'', ''p, '' @ [dquote] @ ''q'' @ [dquote]]"
    using w by (simp add: trim_def is_ws_def)
  have c: "parse_headers '' a , b'' = [''a'', ''b'']"
    using w a by (simp add: trim_def is_ws_def)
  have d: "dom (build_record (parse_headers '' a , b'') [''1'']) = {''a'', ''b''}"
  proof -
    from w have "dom (build_record (parse_headers '' a , b'') [''1'']) = set (parseCSVLine '' a , b'')"
      by (elim conjE)
    then show ?thesis unfolding a by simp
  qed
  from a b c d show ?thesis by (intro conjI)
qed

section \<open>The transform library: proofs\<close>

lemma split_on_length: "CHR '':'' \<in> set s \<Longrightarrow> 2 \<le> length (split_on CHR '':'' s)"
proof (induction s)
  case Nil
  then show ?case by simp
next
  case (Cons c s)
  obtain p ps where sp: "split_on CHR '':'' s = p # ps"
    using split_on_nonempty[of "CHR '':''" s] by (cases "split_on CHR '':'' s") auto
  show ?case
  proof (cases "c = CHR '':''")
    case True
    then show ?thesis using sp by simp
  next
    case False
    with Cons.prems have "CHR '':'' \<in> set s" by simp
    from Cons.IH[OF this] False sp show ?thesis by simp
  qed
qed

lemma floor_half_rat: "\<lfloor>1 / 2 :: rat\<rfloor> = 0"
  by (simp add: floor_eq_iff)

lemmas time_eval = floor_half_rat timeToMinutes_def isValidString_def trim_def is_ws_def parseInt_or_zero_def nth_opt_def
  parseInt_def trimStart_def is_digit_def is_hex_digit_def digits_value_def digit_val_def parseFloat_def read_decimal_def
  read_exponent_def pow10_def isNaN_def

lemma ttm_ex1: "timeToMinutes (Some ''01:02:30'') = Inr (VNum (Fin 63))"
  by (simp add: time_eval)
lemma ttm_ex2: "timeToMinutes (Some ''5.5'') = Inr (VNum (Fin 6))"
  by (simp add: time_eval)
lemma ttm_ex3: "timeToMinutes (Some ''12:75'') =
   Inl (ProcessingError ''Invalid time values''
         [(''value'', VStr ''12:75''), (''hours'', VNum (Fin 12)), (''minutes'', VNum (Fin 75)),
          (''seconds'', VNum (Fin 0))])"
  by (simp add: time_eval)
lemma ttm_ex4: "timeToMinutes (Some ''25:00'') = Inr (VNum (Fin 1500))"
  by (simp add: time_eval)

text \<open>
  Claim C5. \<open>timeToMinutes\<close> returns \<open>null\<close> for a missing, empty or blank value. For a
  value with a colon it splits at the colons, reads each part with \<open>parseInt\<close> (0 when
  that fails or the part is missing), fails with \<open>Invalid time format\<close> on more than three
  parts and with \<open>Invalid time values\<close> unless hours are non-negative and minutes and
  seconds lie in 0 to 59, both errors carrying the value, and else returns
  \<open>hours * 60 + minutes + round (seconds / 60)\<close>; hours have no upper bound. For a value
  without a colon it returns the rounded \<open>parseFloat\<close> of the value when that is a
  non-negative number and fails with \<open>Invalid numeric time value\<close> otherwise. In
  particular \<open>01:02:30\<close> gives 63, \<open>5.5\<close> gives 6, \<open>12:75\<close> fails and \<open>25:00\<close> gives 1500.
\<close>

theorem timeToMinutes_cases:
  "timeToMinutes None = Inr VNull
   \<and> (trim s = [] \<longrightarrow> timeToMinutes (Some s) = Inr VNull)
   \<and> (trim s \<noteq> [] \<and> CHR '':'' \<in> set s \<longrightarrow>
        (let parts = split_on CHR '':'' s;
             hours = parseInt_or_zero (nth_opt parts 0);
             minutes = parseInt_or_zero (nth_opt parts 1);
             seconds = parseInt_or_zero (nth_opt parts 2)
         in 2 \<le> length parts
            \<and> timeToMinutes (Some s) =
                (if 3 < length parts then
                   Inl (ProcessingError ''Invalid time format''
                         [(''value'', VStr s), (''expectedFormat'', VStr ''HH:MM or HH:MM:SS'')])
                 else if 0 \<le> hours \<and> 0 \<le> minutes \<and> minutes \<le> 59 \<and> 0 \<le> seconds \<and> seconds \<le> 59 then
                   Inr (VNum (Fin (of_int (hours * 60 + minutes + round (of_int seconds / 60 :: rat)))))
                 else
                   Inl (ProcessingError ''Invalid time values''
                         [(''value'', VStr s), (''hours'', VNum (Fin (of_int hours))),
                          (''minutes'', VNum (Fin (of_int minutes))),
                          (''seconds'', VNum (Fin (of_int seconds)))]))))
   \<and> (trim s \<noteq> [] \<and> CHR '':'' \<notin> set s \<longrightarrow>
        timeToMinutes (Some s) =
          (case parseFloat s of
             Fin x \<Rightarrow>
               if 0 \<le> x then Inr (VNum (Fin (of_int (round x))))
               else Inl (ProcessingError ''Invalid numeric time value'' [(''value'', VStr s)])
           | PosInf \<Rightarrow> Inr (VNum PosInf)
           | _ \<Rightarrow> Inl (ProcessingError ''Invalid numeric time value'' [(''value'', VStr s)])))
   \<and> timeToMinutes (Some ''01:02:30'') = Inr (VNum (Fin 63))
   \<and> timeToMinutes (Some ''5.5'') = Inr (VNum (Fin 6))
   \<and> timeToMinutes (Some ''12:75'') =
        Inl (ProcessingError ''Invalid time values''
              [(''value'', VStr ''12:75''), (''hours'', VNum (Fin 12)), (''minutes'', VNum (Fin 75)),
               (''seconds'', VNum (Fin 0))])
   \<and> timeToMinutes (Some ''25:00'') = Inr (VNum (Fin 1500))"
proof -
  have none: "timeToMinutes None = Inr VNull"
    by (simp add: timeToMinutes_def)
  have blank: "trim s = [] \<longrightarrow> timeToMinutes (Some s) = Inr VNull"
    by (simp add: timeToMinutes_def isValidString_def)
  have colon: "trim s \<noteq> [] \<and> CHR '':'' \<in> set s \<longrightarrow>
        (let parts = split_on CHR '':'' s;
             hours = parseInt_or_zero (nth_opt parts 0);
             minutes = parseInt_or_zero (nth_opt parts 1);
             seconds = parseInt_or_zero (nth_opt parts 2)
         in 2 \<le> length parts
            \<and> timeToMinutes (Some s) =
                (if 3 < length parts then
                   Inl (ProcessingError ''Invalid time format''
                         [(''value'', VStr s), (''expectedFormat'', VStr ''HH:MM or HH:MM:SS'')])
                 else if 0 \<le> hours \<and> 0 \<le> minutes \<and> minutes \<le> 59 \<and> 0 \<le> seconds \<and> seconds \<le> 59 then
                   Inr (VNum (Fin (of_int (hours * 60 + minutes + round (of_int seconds / 60 :: rat)))))
                 else
                   Inl (ProcessingError ''Invalid time values''
                         [(''value'', VStr s), (''hours'', VNum (Fin (of_int hours))),
                          (''minutes'', VNum (Fin (of_int minutes))),
                          (''seconds'', VNum (Fin (of_int seconds)))])))"
  proof
    assume a: "trim s \<noteq> [] \<and> CHR '':'' \<in> set s"
    then have len: "2 \<le> length (split_on CHR '':'' s)"
      by (simp add: split_on_length)
    from a len show "(let parts = split_on CHR '':'' s;
             hours = parseInt_or_zero (nth_opt parts 0);
             minutes = parseInt_or_zero (nth_opt parts 1);
             seconds = parseInt_or_zero (nth_opt parts 2)
         in 2 \<le> length parts
            \<and> timeToMinutes (Some s) =
                (if 3 < length parts then
                   Inl (ProcessingError ''Invalid time format''
                         [(''value'', VStr s), (''expectedFormat'', VStr ''HH:MM or HH:MM:SS'')])
                 else if 0 \<le> hours \<and> 0 \<le> minutes \<and> minutes \<le> 59 \<and> 0 \<le> seconds \<and> seconds \<le> 59 then
                   Inr (VNum (Fin (of_int (hours * 60 + minutes + round (of_int seconds / 60 :: rat)))))
                 else
                   Inl (ProcessingError ''Invalid time values''
                         [(''value'', VStr s), (''hours'', VNum (Fin (of_int hours))),
                          (''minutes'', VNum (Fin (of_int minutes))),
                          (''seconds'', VNum (Fin (of_int seconds)))])))"
      by (auto simp: timeToMinutes_def isValidString_def Let_def round_def)
  qed
  have plain: "trim s \<noteq> [] \<and> CHR '':'' \<notin> set s \<longrightarrow>
        timeToMinutes (Some s) =
          (case parseFloat s of
             Fin x \<Rightarrow>
               if 0 \<le> x then Inr (VNum (Fin (of_int (round x))))
               else Inl (ProcessingError ''Invalid numeric time value'' [(''value'', VStr s)])
           | PosInf \<Rightarrow> Inr (VNum PosInf)
           | _ \<Rightarrow> Inl (ProcessingError ''Invalid numeric time value'' [(''value'', VStr s)]))"
    by (auto simp: timeToMinutes_def isValidString_def Let_def round_def isNaN_def split: jsnum.splits)
  from none blank colon plain ttm_ex1 ttm_ex2 ttm_ex3 ttm_ex4 show ?thesis
    by (intro conjI)
qed

theorem timeToMinutes_cases_witness:
  "timeToMinutes (Some ''  '') = Inr VNull
   \<and> timeToMinutes (Some ''1:2:3:4'') =
        Inl (ProcessingError ''Invalid time format''
              [(''value'', VStr ''1:2:3:4''), (''expectedFormat'', VStr ''HH:MM or HH:MM:SS'')])
   \<and> timeToMinutes (Some ''100:59:29'') = Inr (VNum (Fin 6059))
   \<and> timeToMinutes (Some ''-3'') =
        Inl (ProcessingError ''Invalid numeric time value'' [(''value'', VStr ''-3'')])
   \<and> timeToMinutes (Some ''7.5'') = Inr (VNum (Fin 8))"
proof -
  have a: "timeToMinutes (Some ''  '') = Inr VNull"
    using timeToMinutes_cases [of "''  ''"] by (simp add: trim_def is_ws_def)
  have b: "timeToMinutes (Some ''1:2:3:4'') =
        Inl (ProcessingError ''Invalid time format''
              [(''value'', VStr ''1:2:3:4''), (''expectedFormat'', VStr ''HH:MM or HH:MM:SS'')])"
    using timeToMinutes_cases [of "''1:2:3:4''"] by (simp add: trim_def is_ws_def)
  have c: "timeToMinutes (Some ''100:59:29'') = Inr (VNum (Fin 6059))"
    using timeToMinutes_cases [of "''100:59:29''"] by (simp add: time_eval round_def floor_eq_iff)
  have d: "timeToMinutes (Some ''-3'') =
        Inl (ProcessingError ''Invalid numeric time value'' [(''value'', VStr ''-3'')])"
    using timeToMinutes_cases [of "''-3''"] by (simp add: time_eval)
  have e: "timeToMinutes (Some ''7.5'') = Inr (VNum (Fin 8))"
    using timeToMinutes_cases [of "''7.5''"] by (simp add: time_eval round_def floor_eq_iff)
  from a b c d e show ?thesis by (intro conjI)
qed

text \<open>
  Claim C8. For a transform name that is none of the dispatcher's labels,
  \<open>runTransformation\<close> returns the raw value as it is, and never an error.
\<close>

theorem runTransformation_unknown_name:
  "transformName \<notin> set transform_registry \<Longrightarrow> runTransformation H v transformName = Inr (raw_val v)"
  by (simp add: transform_registry_def runTransformation_def)

theorem runTransformation_unknown_name_witness:
  "''toUpperCase'' \<notin> set transform_registry
   \<and> runTransformation example_host (Some ''abc'') ''toUpperCase'' = Inr (VStr ''abc'')
   \<and> runTransformation example_host None ''toUpperCase'' = Inr VUndef"
  using runTransformation_unknown_name [of "''toUpperCase''" example_host "Some ''abc''"]
        runTransformation_unknown_name [of "''toUpperCase''" example_host None]
  by (simp add: transform_registry_def raw_val_def)


text \<open>
  \<open>parsePercentage\<close> on doubles: the product of \<open>0.285\<close> and 100 is the double just below
  \<open>28.5\<close>, and that of \<open>1.005\<close> and 100 the double just below \<open>100.5\<close>; \<open>1e21\<close> times 100 is
  a double that prints as \<open>1e+23\<close>.
\<close>

lemma parsePercentage_examples:
  "parsePercentage (Some ''0.285'') = VStr ''28%''
   \<and> parsePercentage (Some ''1.005'') = VStr ''100%''
   \<and> parsePercentage (Some ''0.5'') = VStr ''50%''
   \<and> parsePercentage (Some ''-0.004'') = VStr ''0%''
   \<and> parsePercentage (Some ''12 %'') = VStr ''1200%''
   \<and> parsePercentage (Some ''1e21'') = VStr ''1e+23%''
   \<and> parsePercentage (Some ''n/a'') = VStr ''unknown''
   \<and> parsePercentage None = VStr ''unknown''"
  by code_simp

section \<open>The field mapper: proofs\<close>

text \<open>
  Claim C7. For one field: an empty or missing raw value with a default configured gives
  the default, and neither a transform nor the coercion runs; else a transform name that
  is set gives the transform library's result as it is; else the value is coerced by the
  declared type. \<open>number\<close>: every character but digits, period and minus is removed and
  the rest read by \<open>parseFloat\<close>, with \<open>null\<close> for an empty value or \<open>NaN\<close>. \<open>boolean\<close>:
  whether the lower-cased value is \<open>on\<close>, \<open>true\<close> or \<open>1\<close>, \<open>false\<close> for an empty value.
  \<open>date\<close>: the host's parse, \<open>null\<close> when invalid or empty. \<open>enum\<close>: the first enum
  value equal to the raw value up to case, else the raw value unchanged. Any other type:
  the trimmed string, \<open>null\<close> when that is empty.
\<close>

theorem applyTransform_precedence:
  "(\<not> truthy_raw v \<and> fdefault fm = Some d \<longrightarrow> applyTransform H v fm = Inr d)
   \<and> ((truthy_raw v \<or> fdefault fm = None) \<and> transform_set fm = Some t \<longrightarrow>
        applyTransform H v fm = runTransformation H v t)
   \<and> ((truthy_raw v \<or> fdefault fm = None) \<and> transform_set fm = None \<longrightarrow>
        applyTransform H v fm = Inr (coerce_by_type H v fm))
   \<and> (ftype fm = Some ''number'' \<longrightarrow>
        (\<not> truthy_raw v \<longrightarrow> coerce_by_type H v fm = VNull)
        \<and> (s \<noteq> [] \<longrightarrow>
             coerce_by_type H (Some s) fm =
               (case parseFloat (filter (\<lambda>c. is_digit c \<or> c = CHR ''.'' \<or> c = CHR ''-'') s) of
                  NaN \<Rightarrow> VNull | n \<Rightarrow> VNum n)))
   \<and> (ftype fm = Some ''boolean'' \<longrightarrow>
        (\<not> truthy_raw v \<longrightarrow> coerce_by_type H v fm = VBool False)
        \<and> (s \<noteq> [] \<longrightarrow>
             coerce_by_type H (Some s) fm = VBool (toLowerCase s \<in> {''on'', ''true'', ''1''})))
   \<and> (ftype fm = Some ''date'' \<longrightarrow>
        (\<not> truthy_raw v \<longrightarrow> coerce_by_type H v fm = VNull)
        \<and> (s \<noteq> [] \<longrightarrow>
             coerce_by_type H (Some s) fm =
               (case date_parse H s of None \<Rightarrow> VNull | Some t \<Rightarrow> VDate t)))
   \<and> (ftype fm = Some ''enum'' \<longrightarrow>
        (enum_values fm = None \<longrightarrow> coerce_by_type H v fm = raw_val v)
        \<and> (enum_values fm = Some evs \<longrightarrow>
             coerce_by_type H None fm = VUndef
             \<and> ((\<forall>e \<in> set evs. toLowerCase e \<noteq> toLowerCase s) \<longrightarrow>
                  coerce_by_type H (Some s) fm = VStr s)
             \<and> (\<forall>e. find (\<lambda>e. toLowerCase e = toLowerCase s) evs = Some e \<and> e \<noteq> [] \<longrightarrow>
                  coerce_by_type H (Some s) fm = VStr e)))
   \<and> (ftype fm \<notin> {Some ''number'', Some ''boolean'', Some ''date'', Some ''enum''} \<longrightarrow>
        (\<not> truthy_raw v \<longrightarrow> coerce_by_type H v fm = VNull)
        \<and> coerce_by_type H (Some s) fm = (if trim s = [] then VNull else VStr (trim s)))"
proof -
  have dflt: "\<not> truthy_raw v \<and> fdefault fm = Some d \<longrightarrow> applyTransform H v fm = Inr d"
    by (simp add: applyTransform_def)
  have named: "(truthy_raw v \<or> fdefault fm = None) \<and> transform_set fm = Some t \<longrightarrow>
        applyTransform H v fm = runTransformation H v t"
    by (auto simp: applyTransform_def split: option.splits bool.splits)
  have typed: "(truthy_raw v \<or> fdefault fm = None) \<and> transform_set fm = None \<longrightarrow>
        applyTransform H v fm = Inr (coerce_by_type H v fm)"
    by (auto simp: applyTransform_def split: option.splits bool.splits)
  have num: "ftype fm = Some ''number'' \<longrightarrow>
        (\<not> truthy_raw v \<longrightarrow> coerce_by_type H v fm = VNull)
        \<and> (s \<noteq> [] \<longrightarrow>
             coerce_by_type H (Some s) fm =
               (case parseFloat (filter (\<lambda>c. is_digit c \<or> c = CHR ''.'' \<or> c = CHR ''-'') s) of
                  NaN \<Rightarrow> VNull | n \<Rightarrow> VNum n))"
    by (auto simp: coerce_by_type_def truthy_raw_def strip_non_numeric_def isNaN_def Let_def
             split: option.splits jsnum.splits)
  have bool: "ftype fm = Some ''boolean'' \<longrightarrow>
        (\<not> truthy_raw v \<longrightarrow> coerce_by_type H v fm = VBool False)
        \<and> (s \<noteq> [] \<longrightarrow>
             coerce_by_type H (Some s) fm = VBool (toLowerCase s \<in> {''on'', ''true'', ''1''}))"
    by (auto simp: coerce_by_type_def truthy_raw_def Let_def split: option.splits)
  have date: "ftype fm = Some ''date'' \<longrightarrow>
        (\<not> truthy_raw v \<longrightarrow> coerce_by_type H v fm = VNull)
        \<and> (s \<noteq> [] \<longrightarrow>
             coerce_by_type H (Some s) fm =
               (case date_parse H s of None \<Rightarrow> VNull | Some t \<Rightarrow> VDate t))"
    by (auto simp: coerce_by_type_def truthy_raw_def split: option.splits)
  have find_false: "find (\<lambda>enumVal. False) evs = None"
    by (simp add: find_None_iff)
  have enum1: "ftype fm = Some ''enum'' \<Longrightarrow> enum_values fm = None \<Longrightarrow> coerce_by_type H v fm = raw_val v"
    by (simp add: coerce_by_type_def transformEnum_def)
  have enum2: "ftype fm = Some ''enum'' \<Longrightarrow> enum_values fm = Some evs \<Longrightarrow> coerce_by_type H None fm = VUndef"
    by (simp add: coerce_by_type_def transformEnum_def lower_raw_def raw_val_def find_false)
  have enum3: "ftype fm = Some ''enum'' \<Longrightarrow> enum_values fm = Some evs \<Longrightarrow>
      \<forall>e \<in> set evs. toLowerCase e \<noteq> toLowerCase s \<Longrightarrow> coerce_by_type H (Some s) fm = VStr s"
  proof -
    assume a: "ftype fm = Some ''enum''" "enum_values fm = Some evs"
      and n: "\<forall>e \<in> set evs. toLowerCase e \<noteq> toLowerCase s"
    from n have "find (\<lambda>e. toLowerCase e = toLowerCase s) evs = None"
      by (simp add: find_None_iff)
    with a show ?thesis
      by (simp add: coerce_by_type_def transformEnum_def lower_raw_def raw_val_def)
  qed
  have enum4: "ftype fm = Some ''enum'' \<Longrightarrow> enum_values fm = Some evs \<Longrightarrow>
      find (\<lambda>e. toLowerCase e = toLowerCase s) evs = Some e \<and> e \<noteq> [] \<Longrightarrow>
      coerce_by_type H (Some s) fm = VStr e" for e
    by (simp add: coerce_by_type_def transformEnum_def lower_raw_def raw_val_def)
  have enum: "ftype fm = Some ''enum'' \<longrightarrow>
        (enum_values fm = None \<longrightarrow> coerce_by_type H v fm = raw_val v)
        \<and> (enum_values fm = Some evs \<longrightarrow>
             coerce_by_type H None fm = VUndef
             \<and> ((\<forall>e \<in> set evs. toLowerCase e \<noteq> toLowerCase s) \<longrightarrow>
                  coerce_by_type H (Some s) fm = VStr s)
             \<and> (\<forall>e. find (\<lambda>e. toLowerCase e = toLowerCase s) evs = Some e \<and> e \<noteq> [] \<longrightarrow>
                  coerce_by_type H (Some s) fm = VStr e))"
    using enum1 enum2 enum3 enum4 by blast
  have other: "ftype fm \<notin> {Some ''number'', Some ''boolean'', Some ''date'', Some ''enum''} \<longrightarrow>
        (\<not> truthy_raw v \<longrightarrow> coerce_by_type H v fm = VNull)
        \<and> coerce_by_type H (Some s) fm = (if trim s = [] then VNull else VStr (trim s))"
    by (auto simp: coerce_by_type_def truthy_raw_def trim_def split: option.splits)
  from dflt named typed num bool date enum other show ?thesis
    by (intro conjI)
qed

lemmas coerce_eval = example_host_def trim_def is_ws_def parseFloat_def read_decimal_def read_exponent_def
  pow10_def trimStart_def is_digit_def digits_value_def digit_val_def toLowerCase_def lower_char_def
  truthy_raw_def transform_set_def

theorem applyTransform_precedence_witness:
  "applyTransform example_host (Some [])
      \<lparr>target = ''prep_time_minutes'', ftype = Some ''number'', enum_values = None,
       ftransform = Some ''timeToMinutes'', required = False, fdefault = Some (VNum (Fin 0))\<rparr>
     = Inr (VNum (Fin 0))
   \<and> applyTransform example_host (Some ''01:30'')
      \<lparr>target = ''prep_time_minutes'', ftype = Some ''number'', enum_values = None,
       ftransform = Some ''timeToMinutes'', required = False, fdefault = None\<rparr>
     = Inr (VNum (Fin 90))
   \<and> applyTransform example_host (Some ''GBP 1,234.50'')
      \<lparr>target = ''order_value'', ftype = Some ''number'', enum_values = None,
       ftransform = None, required = False, fdefault = None\<rparr>
     = Inr (VNum (Fin (2469 / 2)))
   \<and> applyTransform example_host (Some ''TRUE'')
      \<lparr>target = ''completed_flag'', ftype = Some ''boolean'', enum_values = None,
       ftransform = None, required = False, fdefault = None\<rparr>
     = Inr (VBool True)
   \<and> applyTransform example_host (Some ''yesterday'')
      \<lparr>target = ''order_datetime'', ftype = Some ''date'', enum_values = None,
       ftransform = None, required = False, fdefault = None\<rparr>
     = Inr VNull
   \<and> applyTransform example_host (Some ''pickup'')
      \<lparr>target = ''delivery_type'', ftype = Some ''enum'', enum_values = Some [''Delivery'', ''Pickup''],
       ftransform = None, required = False, fdefault = None\<rparr>
     = Inr (VStr ''Pickup'')
   \<and> applyTransform example_host (Some ''Drone'')
      \<lparr>target = ''delivery_type'', ftype = Some ''enum'', enum_values = Some [''Delivery'', ''Pickup''],
       ftransform = None, required = False, fdefault = None\<rparr>
     = Inr (VStr ''Drone'')
   \<and> applyTransform example_host (Some ''  Nando ''  )
      \<lparr>target = ''restaurant_name'', ftype = None, enum_values = None,
       ftransform = None, required = True, fdefault = None\<rparr>
     = Inr (VStr ''Nando'')"
proof -
  let ?dflt = "\<lparr>target = ''prep_time_minutes'', ftype = Some ''number'', enum_values = None,
       ftransform = Some ''timeToMinutes'', required = False, fdefault = Some (VNum (Fin 0))\<rparr>"
  let ?named = "\<lparr>target = ''prep_time_minutes'', ftype = Some ''number'', enum_values = None,
       ftransform = Some ''timeToMinutes'', required = False, fdefault = None\<rparr>"
  let ?num = "\<lparr>target = ''order_value'', ftype = Some ''number'', enum_values = None,
       ftransform = None, required = False, fdefault = None\<rparr>"
  let ?bool = "\<lparr>target = ''completed_flag'', ftype = Some ''boolean'', enum_values = None,
       ftransform = None, required = False, fdefault = None\<rparr>"
  let ?date = "\<lparr>target = ''order_datetime'', ftype = Some ''date'', enum_values = None,
       ftransform = None, required = False, fdefault = None\<rparr>"
  let ?enum = "\<lparr>target = ''delivery_type'', ftype = Some ''enum'', enum_values = Some [''Delivery'', ''Pickup''],
       ftransform = None, required = False, fdefault = None\<rparr>"
  let ?str = "\<lparr>target = ''restaurant_name'', ftype = None, enum_values = None,
       ftransform = None, required = True, fdefault = None\<rparr>"
  have a: "applyTransform example_host (Some []) ?dflt = Inr (VNum (Fin 0))"
    using applyTransform_precedence [where v = "Some []" and fm = ?dflt and d = "VNum (Fin 0)" and H = example_host]
    by (simp add: truthy_raw_def)
  have b: "applyTransform example_host (Some ''01:30'') ?named = Inr (VNum (Fin 90))"
    using applyTransform_precedence [where v = "Some ''01:30''" and fm = ?named and t = "''timeToMinutes''" and H = example_host]
    by (simp add: truthy_raw_def transform_set_def runTransformation_def time_eval)
  have c: "applyTransform example_host (Some ''GBP 1,234.50'') ?num = Inr (VNum (Fin (2469 / 2)))"
    using applyTransform_precedence [where v = "Some ''GBP 1,234.50''" and s = "''GBP 1,234.50''" and fm = ?num and H = example_host]
    by (simp add: coerce_eval)
  have d: "applyTransform example_host (Some ''TRUE'') ?bool = Inr (VBool True)"
    using applyTransform_precedence [where v = "Some ''TRUE''" and s = "''TRUE''" and fm = ?bool and H = example_host]
    by (simp add: coerce_eval)
  have e: "applyTransform example_host (Some ''yesterday'') ?date = Inr VNull"
    using applyTransform_precedence [where v = "Some ''yesterday''" and s = "''yesterday''" and fm = ?date and H = example_host]
    by (simp add: coerce_eval)
  have f: "applyTransform example_host (Some ''pickup'') ?enum = Inr (VStr ''Pickup'')"
    using applyTransform_precedence [where v = "Some ''pickup''" and s = "''pickup''" and fm = ?enum and H = example_host
            and evs = "[''Delivery'', ''Pickup'']"]
    by (simp add: coerce_eval)
  have g: "applyTransform example_host (Some ''Drone'') ?enum = Inr (VStr ''Drone'')"
    using applyTransform_precedence [where v = "Some ''Drone''" and s = "''Drone''" and fm = ?enum and H = example_host
            and evs = "[''Delivery'', ''Pickup'']"]
    by (simp add: coerce_eval)
  have h: "applyTransform example_host (Some ''  Nando '') ?str = Inr (VStr ''Nando'')"
    using applyTransform_precedence [where v = "Some ''  Nando ''" and s = "''  Nando ''" and fm = ?str and H = example_host]
    by (simp add: coerce_eval)
  from a b c d e f g h show ?thesis by (intro conjI)
qed

section \<open>The status resolver: proofs\<close>

lemma parseInt_number_int:
  "\<bar>n\<bar> < 10 ^ 21 \<Longrightarrow> parseInt_number (of_int n) = Some n"
proof (cases "n = 0")
  case True
  then show ?thesis by (simp add: parseInt_number_def)
next
  case False
  assume b: "\<bar>n\<bar> < 10 ^ 21"
  from False have "1 \<le> \<bar>n\<bar>" by arith
  then have "(of_int 1 :: rat) \<le> of_int \<bar>n\<bar>" by (simp only: of_int_le_iff)
  then have one: "(1 :: rat) \<le> \<bar>of_int n\<bar>" by simp
  then have lo: "(1 / 1000000 :: rat) \<le> \<bar>of_int n\<bar>" by simp
  from b have "(of_int \<bar>n\<bar> :: rat) < of_int (10 ^ 21)" by (simp only: of_int_less_iff)
  then have hi: "\<bar>of_int n :: rat\<bar> < 1000000000000000000000" by simp
  have "\<lfloor>of_int \<bar>n\<bar> :: rat\<rfloor> = \<bar>n\<bar>" by (rule floor_of_int)
  then have fl: "\<lfloor>\<bar>of_int n :: rat\<bar>\<rfloor> = \<bar>n\<bar>" by simp
  from False lo hi fl show ?thesis
    by (auto simp: parseInt_number_def Let_def)
qed

lemma digit_char_val: "m < 10 \<Longrightarrow> digit_val (''0123456789'' ! m) = m"
proof -
  assume "m < 10"
  then have "m \<in> {0, 1, 2, 3, 4, 5, 6, 7, 8, 9}" by auto
  then show ?thesis by (auto simp: digit_val_def)
qed

lemma nat_digits_head:
  "0 < m \<Longrightarrow> \<exists>c cs. nat_digits m = c # cs \<and> 1 \<le> digit_val c"
proof (induction m rule: nat_digits.induct)
  case (1 n)
  show ?case
  proof (cases "n < 10")
    case True
    with "1.prems" digit_char_val[of n] show ?thesis
      by (subst nat_digits.simps) simp
  next
    case False
    then have "0 < n div 10" by simp
    from "1.IH"[OF False this] obtain c cs where "nat_digits (n div 10) = c # cs" "1 \<le> digit_val c"
      by blast
    with False show ?thesis
      by (subst nat_digits.simps) simp
  qed
qed

lemma parseInt_number_sign:
  "positive (parseInt_number (of_int n)) = (0 < n)"
proof (cases "\<bar>n\<bar> < 10 ^ 21")
  case True
  from parseInt_number_int[OF this] show ?thesis by (simp add: positive_def)
next
  case False
  then have big: "(10 :: int) ^ 21 \<le> \<bar>n\<bar>" by simp
  then have "(of_int (10 ^ 21) :: rat) \<le> of_int \<bar>n\<bar>" by (simp only: of_int_le_iff)
  then have hi: "(1000000000000000000000 :: rat) \<le> \<bar>of_int n\<bar>" by simp
  from big have n0: "n \<noteq> 0" by auto
  have "\<lfloor>of_int \<bar>n\<bar> :: rat\<rfloor> = \<bar>n\<bar>" by (rule floor_of_int)
  then have fl: "\<lfloor>\<bar>of_int n :: rat\<bar>\<rfloor> = \<bar>n\<bar>" by simp
  from n0 have "0 < nat \<bar>n\<bar>" by simp
  from nat_digits_head[OF this] obtain c cs where d: "nat_digits (nat \<bar>n\<bar>) = c # cs" "1 \<le> digit_val c"
    by blast
  from hi have nlo: "\<not> \<bar>of_int n :: rat\<bar> < 1000000000000000000000" by simp
  have "parseInt_number (of_int n) = Some ((if n < 0 then - 1 else 1) * int (digit_val c))"
    using n0 hi nlo fl d by (simp add: parseInt_number_def Let_def)
  with d(2) n0 show ?thesis by (auto simp: positive_def)
qed

lemma integer_count_positive_all:
  "positive (parseInt_or_string_zero (VNum (Fin (of_int n)))) = (0 < n)"
proof (cases "n = 0")
  case True
  then show ?thesis
    by (simp add: parseInt_or_string_zero_def positive_def parseInt_def trimStart_def is_ws_def
                  is_digit_def digits_value_def digit_val_def)
next
  case False
  with parseInt_number_sign[of n] show ?thesis
    by (simp add: parseInt_or_string_zero_def)
qed

lemma digit_char_is_digit: "m < 10 \<Longrightarrow> is_digit (''0123456789'' ! m)"
proof -
  assume "m < 10"
  then have "m \<in> {0, 1, 2, 3, 4, 5, 6, 7, 8, 9}" by auto
  then show ?thesis by (auto simp: is_digit_def)
qed

lemma nat_digits_all_digits: "list_all is_digit (nat_digits n)"
proof (induction n rule: nat_digits.induct)
  case (1 n)
  show ?case
  proof (cases "n < 10")
    case True
    with digit_char_is_digit[of n] show ?thesis by (subst nat_digits.simps) simp
  next
    case False
    have "n mod 10 < 10" by simp
    from digit_char_is_digit[OF this] "1.IH"[OF False] False show ?thesis
      by (subst nat_digits.simps) simp
  qed
qed

lemma digits_value_snoc: "digits_value r (ds @ [c]) = r * digits_value r ds + digit_val c"
  by (simp add: digits_value_def)

lemma digits_value_nat_digits: "digits_value 10 (nat_digits n) = n"
proof (induction n rule: nat_digits.induct)
  case (1 n)
  show ?case
  proof (cases "n < 10")
    case True
    with digit_char_val[of n] show ?thesis
      by (subst nat_digits.simps) (simp add: digits_value_def)
  next
    case False
    have m: "n mod 10 < 10" by simp
    from digit_char_val[OF m] "1.IH"[OF False] False show ?thesis
      by (subst nat_digits.simps) (simp add: digits_value_snoc)
  qed
qed

lemma nat_digits_cons: "\<exists>c cs. nat_digits n = c # cs"
proof (cases "nat_digits n")
  case Nil
  have "nat_digits n \<noteq> []" by (subst nat_digits.simps) simp
  with Nil show ?thesis by simp
next
  case (Cons c cs)
  then show ?thesis by simp
qed

lemma is_digit_not_ws: "is_digit c \<Longrightarrow> \<not> is_ws c"
  by (auto simp: is_digit_def is_ws_def)

lemma is_digit_not_sign: "is_digit c \<Longrightarrow> c \<noteq> CHR ''-'' \<and> c \<noteq> CHR ''+'' \<and> c \<noteq> CHR ''x'' \<and> c \<noteq> CHR ''X''"
  by (auto simp: is_digit_def)

lemma parseInt_nat_digits: "parseInt (nat_digits n) = Some (int n)"
proof -
  obtain c cs where d: "nat_digits n = c # cs" using nat_digits_cons by blast
  have all: "list_all is_digit (c # cs)" using nat_digits_all_digits[of n] d by simp
  then have c: "is_digit c" by simp
  have t: "trimStart (c # cs) = c # cs" using is_digit_not_ws[OF c] by (simp add: trimStart_def)
  have nohex: "\<not> (case c # cs of a # b # _ \<Rightarrow> a = CHR ''0'' \<and> (b = CHR ''x'' \<or> b = CHR ''X'') | _ \<Rightarrow> False)"
  proof (cases cs)
    case Nil
    then show ?thesis by simp
  next
    case (Cons b bs)
    with all have "is_digit b" by simp
    from is_digit_not_sign[OF this] Cons show ?thesis by simp
  qed
  have twcs: "takeWhile is_digit cs = cs"
    using all by (simp add: list_all_iff)
  have v: "digits_value 10 (c # cs) = n" using digits_value_nat_digits[of n] d by simp
  have "parseInt (c # cs) = Some (int (digits_value 10 (c # cs)))"
    using is_digit_not_sign[OF c] nohex c
    by (simp add: parseInt_def t Let_def twcs)
  with v d show ?thesis by simp
qed


lemma holds_count_read:
  "holds_count v n \<Longrightarrow> positive (parseInt_or_string_zero v) = (n \<noteq> 0)"
proof (induction v n rule: holds_count.induct)
  case (1 x n)
  then have "x = of_int (int n)" by simp
  with integer_count_positive_all[of "int n"] show ?case by simp
next
  case (2 s n)
  then have s: "s = nat_digits n" by simp
  obtain c cs where "nat_digits n = c # cs" using nat_digits_cons by blast
  with s have "truthy (VStr s)" by simp
  with s parseInt_nat_digits[of n] show ?case
    by (simp add: parseInt_or_string_zero_def positive_def)
next
  case (3 n)
  then show ?case
    by (simp add: parseInt_or_string_zero_def positive_def parseInt_def trimStart_def is_ws_def
                  is_digit_def digits_value_def digit_val_def)
next
  case (4 n)
  then show ?case
    by (simp add: parseInt_or_string_zero_def positive_def parseInt_def trimStart_def is_ws_def
                  is_digit_def digits_value_def digit_val_def)
qed simp_all

text \<open>
  What the resolver does for \<open>deliveryplatform3_total_order\<close>, in the terms of the code:
  each count is read with \<open>parseInt\<close> and tested for \<open>> 0\<close>, the customer count first.
\<close>

lemma determineOrderStatus_dp3_reads:
  "name integ = ''deliveryplatform3_total_order'' \<Longrightarrow>
      (positive (parseInt_or_string_zero (r ''customer_cancelled_count'')) \<longrightarrow>
         determineOrderStatus r integ = Inr (VStr ''CANCELLED_CUSTOMER''))
      \<and> (\<not> positive (parseInt_or_string_zero (r ''customer_cancelled_count''))
           \<and> positive (parseInt_or_string_zero (r ''partner_cancelled_count'')) \<longrightarrow>
         determineOrderStatus r integ = Inr (VStr ''CANCELLED_RESTAURANT''))
      \<and> (\<not> positive (parseInt_or_string_zero (r ''customer_cancelled_count''))
           \<and> \<not> positive (parseInt_or_string_zero (r ''partner_cancelled_count'')) \<longrightarrow>
         (r ''order_status_raw'' = VStr raw \<longrightarrow>
            determineOrderStatus r integ =
              Inr (VStr (if toLowerCase raw = ''good'' then ''COMPLETED''
                         else if toLowerCase raw = ''bad'' then ''REJECTED'' else ''ACCEPTED'')))
         \<and> (r ''order_status_raw'' = VUndef \<or> r ''order_status_raw'' = VNull \<longrightarrow>
            determineOrderStatus r integ = Inr (VStr ''ACCEPTED'')))"
  by (auto simp: determineOrderStatus_def Let_def)

text \<open>
  Claim C6. For \<open>deliveryplatform3_total_order\<close>: a record whose customer-cancelled count
  is not zero gets \<open>CANCELLED_CUSTOMER\<close>, whatever its partner-cancelled count and raw
  status are (so counts of 1 and 1 give \<open>CANCELLED_CUSTOMER\<close>); with a customer-cancelled
  count of zero, a partner-cancelled count that is not zero gives \<open>CANCELLED_RESTAURANT\<close>;
  with both counts zero, a raw status string gives \<open>COMPLETED\<close> when it is \<open>good\<close> and
  \<open>REJECTED\<close> when it is \<open>bad\<close>, letter case ignored, and \<open>ACCEPTED\<close> when it is any other
  string, and an absent raw status gives \<open>ACCEPTED\<close>. For every record, an integration
  name that is none of the three the resolver knows gives \<open>ACCEPTED\<close>.
\<close>

theorem determineOrderStatus_aggregate_counts:
  "(name integ = ''deliveryplatform3_total_order''
      \<and> holds_count (r ''customer_cancelled_count'') c \<and> c \<noteq> 0 \<longrightarrow>
      determineOrderStatus r integ = Inr (VStr ''CANCELLED_CUSTOMER''))
   \<and> (name integ = ''deliveryplatform3_total_order''
      \<and> holds_count (r ''customer_cancelled_count'') 0
      \<and> holds_count (r ''partner_cancelled_count'') p \<and> p \<noteq> 0 \<longrightarrow>
      determineOrderStatus r integ = Inr (VStr ''CANCELLED_RESTAURANT''))
   \<and> (name integ = ''deliveryplatform3_total_order''
      \<and> holds_count (r ''customer_cancelled_count'') 0
      \<and> holds_count (r ''partner_cancelled_count'') 0
      \<and> r ''order_status_raw'' = VStr raw \<longrightarrow>
      determineOrderStatus r integ =
        Inr (VStr (if toLowerCase raw = ''good'' then ''COMPLETED''
                   else if toLowerCase raw = ''bad'' then ''REJECTED'' else ''ACCEPTED'')))
   \<and> (name integ = ''deliveryplatform3_total_order''
      \<and> holds_count (r ''customer_cancelled_count'') 0
      \<and> holds_count (r ''partner_cancelled_count'') 0
      \<and> (r ''order_status_raw'' = VUndef \<or> r ''order_status_raw'' = VNull) \<longrightarrow>
      determineOrderStatus r integ = Inr (VStr ''ACCEPTED''))
   \<and> (name integ \<noteq> ''deliveryplatform1_order_history''
        \<and> name integ \<noteq> ''deliveryplatform3_total_order''
        \<and> name integ \<noteq> ''deliveryplatform2_business_segments'' \<longrightarrow>
      determineOrderStatus r integ = Inr (VStr ''ACCEPTED''))"
proof -
  let ?cc = "r ''customer_cancelled_count''"
  let ?pc = "r ''partner_cancelled_count''"
  note reads = determineOrderStatus_dp3_reads[where integ = integ and r = r and raw = raw]
  have customer: "determineOrderStatus r integ = Inr (VStr ''CANCELLED_CUSTOMER'')"
    if "name integ = ''deliveryplatform3_total_order''" "holds_count ?cc c" "c \<noteq> 0"
    using reads[OF that(1)] holds_count_read[OF that(2)] that(3) by simp
  have partner: "determineOrderStatus r integ = Inr (VStr ''CANCELLED_RESTAURANT'')"
    if "name integ = ''deliveryplatform3_total_order''" "holds_count ?cc 0" "holds_count ?pc p" "p \<noteq> 0"
    using reads[OF that(1)] holds_count_read[OF that(2)]
          holds_count_read[OF that(3)] that(4) by simp
  have status: "determineOrderStatus r integ =
        Inr (VStr (if toLowerCase raw = ''good'' then ''COMPLETED''
                   else if toLowerCase raw = ''bad'' then ''REJECTED'' else ''ACCEPTED''))"
    if "name integ = ''deliveryplatform3_total_order''" "holds_count ?cc 0" "holds_count ?pc 0"
       "r ''order_status_raw'' = VStr raw"
    using reads[OF that(1)] holds_count_read[OF that(2)]
          holds_count_read[OF that(3)] that(4) by simp
  have absent: "determineOrderStatus r integ = Inr (VStr ''ACCEPTED'')"
    if "name integ = ''deliveryplatform3_total_order''" "holds_count ?cc 0" "holds_count ?pc 0"
       "r ''order_status_raw'' = VUndef \<or> r ''order_status_raw'' = VNull"
    using reads[OF that(1)] holds_count_read[OF that(2)]
          holds_count_read[OF that(3)] that(4) by simp
  have other: "name integ \<noteq> ''deliveryplatform1_order_history''
        \<and> name integ \<noteq> ''deliveryplatform3_total_order''
        \<and> name integ \<noteq> ''deliveryplatform2_business_segments'' \<longrightarrow>
      determineOrderStatus r integ = Inr (VStr ''ACCEPTED'')"
    by (simp add: determineOrderStatus_def Let_def)
  from customer partner status absent other show ?thesis by blast
qed

theorem determineOrderStatus_aggregate_counts_witness:
  "determineOrderStatus
      ((\<lambda>_. VUndef)(''customer_cancelled_count'' := VNum (Fin 1), ''partner_cancelled_count'' := VNum (Fin 1)))
      (deliveryPlatform3Integration 1 1) = Inr (VStr ''CANCELLED_CUSTOMER'')
   \<and> determineOrderStatus
      ((\<lambda>_. VUndef)(''customer_cancelled_count'' := VNum (Fin 0), ''partner_cancelled_count'' := VStr ''12''))
      (deliveryPlatform3Integration 1 1) = Inr (VStr ''CANCELLED_RESTAURANT'')
   \<and> determineOrderStatus ((\<lambda>_. VUndef)(''order_status_raw'' := VStr ''Good''))
      (deliveryPlatform3Integration 1 1) = Inr (VStr ''COMPLETED'')
   \<and> determineOrderStatus
      ((\<lambda>_. VUndef)(''partner_cancelled_count'' := VNull, ''order_status_raw'' := VStr ''BAD''))
      (deliveryPlatform3Integration 1 1) = Inr (VStr ''REJECTED'')
   \<and> determineOrderStatus ((\<lambda>_. VUndef)(''order_status_raw'' := VStr ''late''))
      (deliveryPlatform3Integration 1 1) = Inr (VStr ''ACCEPTED'')
   \<and> determineOrderStatus (\<lambda>_. VUndef) (deliveryPlatform3Integration 1 1) = Inr (VStr ''ACCEPTED'')
   \<and> determineOrderStatus ((\<lambda>_. VUndef)(''customer_cancelled_count'' := VNum (Fin 1)))
      ((deliveryPlatform3Integration 1 1)\<lparr>name := ''some_other_source''\<rparr>) = Inr (VStr ''ACCEPTED'')"
proof -
  let ?I = "deliveryPlatform3Integration 1 1"
  let ?r1 = "(\<lambda>_. VUndef)(''customer_cancelled_count'' := VNum (Fin 1), ''partner_cancelled_count'' := VNum (Fin 1))"
  let ?r2 = "(\<lambda>_. VUndef)(''customer_cancelled_count'' := VNum (Fin 0), ''partner_cancelled_count'' := VStr ''12'')"
  let ?r3 = "(\<lambda>_. VUndef)(''order_status_raw'' := VStr ''Good'')"
  let ?r4 = "(\<lambda>_. VUndef)(''partner_cancelled_count'' := VNull, ''order_status_raw'' := VStr ''BAD'')"
  let ?r5 = "(\<lambda>_. VUndef)(''order_status_raw'' := VStr ''late'')"
  let ?r6 = "(\<lambda>_. VUndef) :: norm_record"
  let ?r7 = "(\<lambda>_. VUndef)(''customer_cancelled_count'' := VNum (Fin 1))"
  have n: "name ?I = ''deliveryplatform3_total_order''"
    by (simp add: deliveryPlatform3Integration_def)
  have a: "determineOrderStatus ?r1 ?I = Inr (VStr ''CANCELLED_CUSTOMER'')"
    using determineOrderStatus_aggregate_counts [where integ = ?I and r = ?r1 and c = 1] n
    by simp
  have b: "determineOrderStatus ?r2 ?I = Inr (VStr ''CANCELLED_RESTAURANT'')"
    using determineOrderStatus_aggregate_counts [where integ = ?I and r = ?r2 and p = 12] n
    by simp
  have c: "determineOrderStatus ?r3 ?I = Inr (VStr ''COMPLETED'')"
    using determineOrderStatus_aggregate_counts [where integ = ?I and r = ?r3 and raw = "''Good''"] n
    by (simp add: toLowerCase_def lower_char_def)
  have d: "determineOrderStatus ?r4 ?I = Inr (VStr ''REJECTED'')"
    using determineOrderStatus_aggregate_counts [where integ = ?I and r = ?r4 and raw = "''BAD''"] n
    by (simp add: toLowerCase_def lower_char_def)
  have e: "determineOrderStatus ?r5 ?I = Inr (VStr ''ACCEPTED'')"
    using determineOrderStatus_aggregate_counts [where integ = ?I and r = ?r5 and raw = "''late''"] n
    by (simp add: toLowerCase_def lower_char_def)
  have f: "determineOrderStatus ?r6 ?I = Inr (VStr ''ACCEPTED'')"
    using determineOrderStatus_aggregate_counts [where integ = ?I and r = ?r6] n
    by simp
  have g: "determineOrderStatus ?r7 (?I\<lparr>name := ''some_other_source''\<rparr>) = Inr (VStr ''ACCEPTED'')"
    using determineOrderStatus_aggregate_counts [where integ = "?I\<lparr>name := ''some_other_source''\<rparr>" and r = ?r7]
    by simp
  from a b c d e f g show ?thesis by (intro conjI)
qed

section \<open>Integration matching: proofs\<close>

lemma match_score_fraction:
  "match_score h i = (if field_mapping i = [] then None else Some (key_fraction h i))"
  by (simp add: match_score_def key_fraction_def Let_def)

lemma key_fraction_no_keys: "field_mapping i = [] \<Longrightarrow> key_fraction h i = 0"
  by (simp add: key_fraction_def)

lemma best_match_loop_step:
  "best_match_loop h (r # rs) bm bs =
     (if key_fraction h r > 7 / 10 \<and> key_fraction h r > bs
      then best_match_loop h rs (Some r) (key_fraction h r)
      else best_match_loop h rs bm bs)"
  by (simp add: match_score_fraction key_fraction_no_keys)

lemma exists_maximal:
  "rs \<noteq> [] \<Longrightarrow> \<exists>i \<in> set rs. \<forall>j \<in> set rs. (f j :: rat) \<le> f i"
proof (induction rs)
  case Nil
  then show ?case by simp
next
  case (Cons r rs)
  show ?case
  proof (cases "rs = []")
    case True
    then show ?thesis by simp
  next
    case False
    from Cons.IH[OF this] obtain i where i: "i \<in> set rs" "\<forall>j \<in> set rs. f j \<le> f i" by blast
    show ?thesis
    proof (cases "f i \<le> f r")
      case True
      with i have "\<forall>j \<in> set (r # rs). f j \<le> f r" by auto
      then show ?thesis by auto
    next
      case False
      with i have "\<forall>j \<in> set (r # rs). f j \<le> f i" by auto
      with i(1) show ?thesis by auto
    qed
  qed
qed

lemma best_match_loop_find:
  "best_match_loop h rows bm bs =
     (case find (\<lambda>i. key_fraction h i > max (7 / 10) bs
                    \<and> (\<forall>j \<in> set rows. key_fraction h j \<le> key_fraction h i)) rows of
        None \<Rightarrow> bm
      | Some i \<Rightarrow> Some i)"
proof (induction rows arbitrary: bm bs)
  case Nil
  then show ?case by simp
next
  case (Cons r rs)
  let ?f = "key_fraction h"
  let ?th = "max (7 / 10) bs"
  show ?case
  proof (cases "?f r > 7 / 10 \<and> ?f r > bs")
    case False
    then have low: "?f r \<le> ?th" by auto
    have eq: "find (\<lambda>i. ?f i > ?th \<and> (\<forall>j \<in> set (r # rs). ?f j \<le> ?f i)) rs
            = find (\<lambda>i. ?f i > ?th \<and> (\<forall>j \<in> set rs. ?f j \<le> ?f i)) rs"
      using low by (intro find_cong) auto
    have "best_match_loop h (r # rs) bm bs = best_match_loop h rs bm bs"
      by (subst best_match_loop_step, rule if_not_P, rule False)
    also have "\<dots> = (case find (\<lambda>i. ?f i > ?th \<and> (\<forall>j \<in> set rs. ?f j \<le> ?f i)) rs of
                        None \<Rightarrow> bm | Some i \<Rightarrow> Some i)"
      by (rule Cons.IH)
    finally have l: "best_match_loop h (r # rs) bm bs
        = (case find (\<lambda>i. ?f i > ?th \<and> (\<forall>j \<in> set rs. ?f j \<le> ?f i)) rs of
             None \<Rightarrow> bm | Some i \<Rightarrow> Some i)" .
    have notr: "\<not> (?f r > ?th \<and> (\<forall>j \<in> set (r # rs). ?f j \<le> ?f r))"
      using low by auto
    have "find (\<lambda>i. ?f i > ?th \<and> (\<forall>j \<in> set (r # rs). ?f j \<le> ?f i)) (r # rs)
            = find (\<lambda>i. ?f i > ?th \<and> (\<forall>j \<in> set (r # rs). ?f j \<le> ?f i)) rs"
      by (subst find.simps(2), rule if_not_P, rule notr)
    also note eq
    finally have "find (\<lambda>i. ?f i > ?th \<and> (\<forall>j \<in> set (r # rs). ?f j \<le> ?f i)) (r # rs)
            = find (\<lambda>i. ?f i > ?th \<and> (\<forall>j \<in> set rs. ?f j \<le> ?f i)) rs" .
    with l show ?thesis by (simp only:)
  next
    case True
    then have hi: "?f r > ?th" by auto
    have mx: "max (7 / 10) (?f r) = ?f r" using True by simp
    have step: "best_match_loop h (r # rs) bm bs
                  = (case find (\<lambda>i. ?f i > ?f r \<and> (\<forall>j \<in> set rs. ?f j \<le> ?f i)) rs of
                       None \<Rightarrow> Some r | Some i \<Rightarrow> Some i)"
    proof -
      have "best_match_loop h (r # rs) bm bs = best_match_loop h rs (Some r) (?f r)"
        by (subst best_match_loop_step, rule if_P, rule True)
      also have "\<dots> = (case find (\<lambda>i. ?f i > max (7 / 10) (?f r) \<and> (\<forall>j \<in> set rs. ?f j \<le> ?f i)) rs of
                       None \<Rightarrow> Some r | Some i \<Rightarrow> Some i)"
        by (rule Cons.IH)
      finally show ?thesis by (simp only: mx)
    qed
    show ?thesis
    proof (cases "\<forall>j \<in> set rs. ?f j \<le> ?f r")
      case top: True
      then have "find (\<lambda>i. ?f i > ?f r \<and> (\<forall>j \<in> set rs. ?f j \<le> ?f i)) rs = None"
        by (auto simp: find_None_iff)
      with step have l: "best_match_loop h (r # rs) bm bs = Some r" by simp
      have "find (\<lambda>i. ?f i > ?th \<and> (\<forall>j \<in> set (r # rs). ?f j \<le> ?f i)) (r # rs) = Some r"
        using hi top by simp
      with l show ?thesis by simp
    next
      case nottop: False
      then obtain k where k: "k \<in> set rs" "?f r < ?f k" by auto
      then have ne: "rs \<noteq> []" by auto
      from exists_maximal[OF ne, of ?f] obtain m where
        m: "m \<in> set rs" "\<forall>j \<in> set rs. ?f j \<le> ?f m" by blast
      from k m have mr: "?f r < ?f m" by force
      have notr: "\<not> (?f r > ?th \<and> (\<forall>j \<in> set (r # rs). ?f j \<le> ?f r))"
        using k by force
      have eq: "find (\<lambda>i. ?f i > ?th \<and> (\<forall>j \<in> set (r # rs). ?f j \<le> ?f i)) rs
              = find (\<lambda>i. ?f i > ?f r \<and> (\<forall>j \<in> set rs. ?f j \<le> ?f i)) rs"
      proof (rule find_cong[OF refl])
        fix x assume "x \<in> set rs"
        show "(?f x > ?th \<and> (\<forall>j \<in> set (r # rs). ?f j \<le> ?f x))
                = (?f x > ?f r \<and> (\<forall>j \<in> set rs. ?f j \<le> ?f x))"
          using hi k by force
      qed
      have some: "find (\<lambda>i. ?f i > ?f r \<and> (\<forall>j \<in> set rs. ?f j \<le> ?f i)) rs \<noteq> None"
        using m mr by (auto simp: find_None_iff)
      have "find (\<lambda>i. ?f i > ?th \<and> (\<forall>j \<in> set (r # rs). ?f j \<le> ?f i)) (r # rs)
              = find (\<lambda>i. ?f i > ?th \<and> (\<forall>j \<in> set (r # rs). ?f j \<le> ?f i)) rs"
        by (subst find.simps(2), rule if_not_P, rule notr)
      also note eq
      finally have "find (\<lambda>i. ?f i > ?th \<and> (\<forall>j \<in> set (r # rs). ?f j \<le> ?f i)) (r # rs)
              = find (\<lambda>i. ?f i > ?f r \<and> (\<forall>j \<in> set rs. ?f j \<le> ?f i)) rs" .
      with step some show ?thesis
        by (cases "find (\<lambda>i. ?f i > ?f r \<and> (\<forall>j \<in> set rs. ?f j \<le> ?f i)) rs") simp_all
    qed
  qed
qed

lemma best_match_loop_first_best: "best_match_loop h rows None 0 = first_best h rows"
proof -
  have "max (7 / 10) (0 :: rat) = 7 / 10" by simp
  then show ?thesis
    by (simp add: best_match_loop_find first_best_def split: option.splits)
qed

lemma first_best_Some:
  "first_best h rows = Some i \<Longrightarrow>
     i \<in> set rows \<and> key_fraction h i > 7 / 10 \<and> (\<forall>j \<in> set rows. key_fraction h j \<le> key_fraction h i)"
  unfolding first_best_def by (auto simp: find_Some_iff)

lemma first_best_None:
  "(first_best h rows = None) = (\<forall>j \<in> set rows. key_fraction h j \<le> 7 / 10)"
proof
  assume n: "first_best h rows = None"
  show "\<forall>j \<in> set rows. key_fraction h j \<le> 7 / 10"
  proof (rule ccontr)
    assume "\<not> (\<forall>j \<in> set rows. key_fraction h j \<le> 7 / 10)"
    then obtain k where k: "k \<in> set rows" "key_fraction h k > 7 / 10" by force
    then have "rows \<noteq> []" by auto
    from exists_maximal[OF this, of "key_fraction h"] obtain m where
      m: "m \<in> set rows" "\<forall>j \<in> set rows. key_fraction h j \<le> key_fraction h m" by blast
    with k have "key_fraction h m > 7 / 10" by force
    with m have "first_best h rows \<noteq> None"
      unfolding first_best_def by (auto simp: find_None_iff)
    with n show False by simp
  qed
next
  assume "\<forall>j \<in> set rows. key_fraction h j \<le> 7 / 10"
  then show "first_best h rows = None"
    unfolding first_best_def by (force simp: find_None_iff)
qed

lemma getIntegrationByHeaders_miss:
  "map_of (integrationCache db) (cacheKey_of headers) = None \<Longrightarrow>
   fst (getIntegrationByHeaders db headers) = first_best headers (filter is_active (integrations db))"
  by (simp add: getIntegrationByHeaders_def Let_def best_match_loop_first_best split: option.splits)

lemma getIntegrationByHeaders_miss_None:
  "map_of (integrationCache db) (cacheKey_of headers) = None \<Longrightarrow>
   first_best headers (filter is_active (integrations db)) = None \<Longrightarrow>
   getIntegrationByHeaders db headers = (None, db)"
  by (simp add: getIntegrationByHeaders_def Let_def best_match_loop_first_best)


text \<open>
  Claim C3, as the code has it. When the lookup is not answered from the in-memory cache
  (as in every run of the command line, which starts with an empty cache),
  \<open>getIntegrationByHeaders\<close> returns the first active integration whose fraction of
  field-mapping keys present in the headers is strictly above 7/10 and the highest among
  the active integrations. It finds one exactly when some active integration is strictly
  above 7/10; when none is, it returns nothing, and a run without an integration key
  fails with the validation error \<open>Could not detect integration\<close>, leaving the storage
  as it was.
\<close>

theorem getIntegrationByHeaders_best_match:
  "map_of (integrationCache db) (cacheKey_of headers) = None \<longrightarrow>
     fst (getIntegrationByHeaders db headers) = first_best headers (filter is_active (integrations db))
     \<and> (\<forall>i. fst (getIntegrationByHeaders db headers) = Some i \<longrightarrow>
            i \<in> set (integrations db) \<and> is_active i \<and> key_fraction headers i > 7 / 10
            \<and> (\<forall>j \<in> set (integrations db). is_active j \<longrightarrow> key_fraction headers j \<le> key_fraction headers i))
     \<and> ((\<exists>j \<in> set (integrations db). is_active j \<and> key_fraction headers j > 7 / 10) \<longrightarrow>
            fst (getIntegrationByHeaders db headers) \<noteq> None)
     \<and> ((\<forall>j \<in> set (integrations db). is_active j \<longrightarrow> key_fraction headers j \<le> 7 / 10) \<longrightarrow>
            getIntegrationByHeaders db headers = (None, db)
            \<and> (key_given integrationKey = None \<and> parse_headers line1 = headers \<longrightarrow>
                 stream H U db path hash integrationKey (line1 # rest)
                   = (Inl (ValidationError ''Could not detect integration'' []), db)))"
proof
  assume miss: "map_of (integrationCache db) (cacheKey_of headers) = None"
  let ?active = "filter is_active (integrations db)"
  let ?found = "fst (getIntegrationByHeaders db headers)"
  have eq: "?found = first_best headers ?active"
    by (rule getIntegrationByHeaders_miss[OF miss])
  have sel: "\<forall>i. ?found = Some i \<longrightarrow>
            i \<in> set (integrations db) \<and> is_active i \<and> key_fraction headers i > 7 / 10
            \<and> (\<forall>j \<in> set (integrations db). is_active j \<longrightarrow> key_fraction headers j \<le> key_fraction headers i)"
  proof (intro allI impI)
    fix i assume "?found = Some i"
    with eq have "first_best headers ?active = Some i" by simp
    from first_best_Some[OF this]
    show "i \<in> set (integrations db) \<and> is_active i \<and> key_fraction headers i > 7 / 10
            \<and> (\<forall>j \<in> set (integrations db). is_active j \<longrightarrow> key_fraction headers j \<le> key_fraction headers i)"
      by auto
  qed
  have above: "(\<exists>j \<in> set (integrations db). is_active j \<and> key_fraction headers j > 7 / 10) \<longrightarrow> ?found \<noteq> None"
  proof
    assume "\<exists>j \<in> set (integrations db). is_active j \<and> key_fraction headers j > 7 / 10"
    then have "\<not> (\<forall>j \<in> set ?active. key_fraction headers j \<le> 7 / 10)" by force
    then have "first_best headers ?active \<noteq> None" using first_best_None by blast
    with eq show "?found \<noteq> None" by simp
  qed
  have below: "(\<forall>j \<in> set (integrations db). is_active j \<longrightarrow> key_fraction headers j \<le> 7 / 10) \<longrightarrow>
            getIntegrationByHeaders db headers = (None, db)
            \<and> (key_given integrationKey = None \<and> parse_headers line1 = headers \<longrightarrow>
                 stream H U db path hash integrationKey (line1 # rest)
                   = (Inl (ValidationError ''Could not detect integration'' []), db))"
  proof
    assume "\<forall>j \<in> set (integrations db). is_active j \<longrightarrow> key_fraction headers j \<le> 7 / 10"
    then have "\<forall>j \<in> set ?active. key_fraction headers j \<le> 7 / 10" by simp
    then have "first_best headers ?active = None" using first_best_None by blast
    from getIntegrationByHeaders_miss_None[OF miss this]
    have none: "getIntegrationByHeaders db headers = (None, db)" .
    then show "getIntegrationByHeaders db headers = (None, db)
            \<and> (key_given integrationKey = None \<and> parse_headers line1 = headers \<longrightarrow>
                 stream H U db path hash integrationKey (line1 # rest)
                   = (Inl (ValidationError ''Could not detect integration'' []), db))"
      by (simp add: stream_def resolve_integration_def)
  qed
  from eq sel above below
  show "?found = first_best headers ?active
     \<and> (\<forall>i. ?found = Some i \<longrightarrow>
            i \<in> set (integrations db) \<and> is_active i \<and> key_fraction headers i > 7 / 10
            \<and> (\<forall>j \<in> set (integrations db). is_active j \<longrightarrow> key_fraction headers j \<le> key_fraction headers i))
     \<and> ((\<exists>j \<in> set (integrations db). is_active j \<and> key_fraction headers j > 7 / 10) \<longrightarrow> ?found \<noteq> None)
     \<and> ((\<forall>j \<in> set (integrations db). is_active j \<longrightarrow> key_fraction headers j \<le> 7 / 10) \<longrightarrow>
            getIntegrationByHeaders db headers = (None, db)
            \<and> (key_given integrationKey = None \<and> parse_headers line1 = headers \<longrightarrow>
                 stream H U db path hash integrationKey (line1 # rest)
                   = (Inl (ValidationError ''Could not detect integration'' []), db)))"
    by (intro conjI)
qed


lemmas match_eval = getIntegrationByHeaders_def empty_storage_def ten_columns_def field_def match_score_def
  key_fraction_def Let_def


text \<open>
  A header row with exactly 70% of the keys does not select the configuration: seven of
  the ten columns give the fraction 7/10, no match, and a validation error.
\<close>

theorem seventy_percent_is_no_match:
  "key_fraction [''a'', ''b'', ''c'', ''d'', ''e'', ''f'', ''g''] ten_columns = 7 / 10
   \<and> getIntegrationByHeaders (empty_storage [ten_columns]) [''a'', ''b'', ''c'', ''d'', ''e'', ''f'', ''g'']
       = (None, empty_storage [ten_columns])
   \<and> stream example_host upserts_ok (empty_storage [ten_columns]) ''orders.csv'' ''0f'' None [''a,b,c,d,e,f,g'']
       = (Inl (ValidationError ''Could not detect integration'' []), empty_storage [ten_columns])"
proof -
  have a: "key_fraction [''a'', ''b'', ''c'', ''d'', ''e'', ''f'', ''g''] ten_columns = 7 / 10"
    by (simp add: match_eval)
  have b: "getIntegrationByHeaders (empty_storage [ten_columns]) [''a'', ''b'', ''c'', ''d'', ''e'', ''f'', ''g'']
       = (None, empty_storage [ten_columns])"
    by (simp add: match_eval)
  have h: "parse_headers ''a,b,c,d,e,f,g'' = [''a'', ''b'', ''c'', ''d'', ''e'', ''f'', ''g'']"
    by (simp add: parse_headers_def parseCSVLine_def trim_def is_ws_def)
  have c: "stream example_host upserts_ok (empty_storage [ten_columns]) ''orders.csv'' ''0f'' None [''a,b,c,d,e,f,g'']
       = (Inl (ValidationError ''Could not detect integration'' []), empty_storage [ten_columns])"
    by (simp add: stream_def resolve_integration_def key_given_def h b)
  from a b c show ?thesis by (intro conjI)
qed

theorem getIntegrationByHeaders_best_match_witness:
  "fst (getIntegrationByHeaders
          (empty_storage [ten_columns, ten_columns\<lparr>integration_id := 2, name := ''later''\<rparr>])
          [''a'', ''b'', ''c'', ''d'', ''e'', ''f'', ''g'', ''h'']) = Some ten_columns
   \<and> key_fraction [''a'', ''b'', ''c'', ''d'', ''e'', ''f'', ''g'', ''h''] ten_columns = 4 / 5
   \<and> stream example_host upserts_ok (empty_storage [ten_columns]) ''orders.csv'' ''0f'' None [''x,y'']
       = (Inl (ValidationError ''Could not detect integration'' []), empty_storage [ten_columns])"
proof -
  let ?db2 = "empty_storage [ten_columns, ten_columns\<lparr>integration_id := 2, name := ''later''\<rparr>]"
  let ?hs = "[''a'', ''b'', ''c'', ''d'', ''e'', ''f'', ''g'', ''h'']"
  have k: "key_fraction ?hs ten_columns = 4 / 5"
    by (simp add: match_eval)
  have k2: "key_fraction ?hs (ten_columns\<lparr>integration_id := 2, name := ''later''\<rparr>) = 4 / 5"
    by (simp add: match_eval)
  have act: "filter is_active (integrations ?db2) = [ten_columns, ten_columns\<lparr>integration_id := 2, name := ''later''\<rparr>]"
    by (simp add: empty_storage_def ten_columns_def)
  have miss: "map_of (integrationCache ?db2) (cacheKey_of ?hs) = None"
    by (simp add: empty_storage_def)
  have fb: "first_best ?hs [ten_columns, ten_columns\<lparr>integration_id := 2, name := ''later''\<rparr>] = Some ten_columns"
    by (simp add: first_best_def k k2)
  have a: "fst (getIntegrationByHeaders ?db2 ?hs) = Some ten_columns"
    using getIntegrationByHeaders_best_match [where db = ?db2 and headers = ?hs] miss act fb
    by simp
  have h: "parse_headers ''x,y'' = [''x'', ''y'']"
    by (simp add: parse_headers_def parseCSVLine_def trim_def is_ws_def)
  have low: "key_fraction [''x'', ''y''] ten_columns = 0"
    by (simp add: match_eval)
  have c: "stream example_host upserts_ok (empty_storage [ten_columns]) ''orders.csv'' ''0f'' None [''x,y'']
       = (Inl (ValidationError ''Could not detect integration'' []), empty_storage [ten_columns])"
    using getIntegrationByHeaders_best_match
            [where db = "empty_storage [ten_columns]" and headers = "[''x'', ''y'']" and integrationKey = None
               and ?line1.0 = "''x,y''" and H = example_host and U = upserts_ok and path = "''orders.csv''"
               and hash = "''0f''" and rest = "[]"]
          h low
    by (simp add: empty_storage_def key_given_def)
  from a k c show ?thesis by (intro conjI)
qed

section \<open>The stream ingestor: proofs\<close>

lemma getIntegrationByHeaders_frame:
  "getIntegrationByHeaders db h = (res, db1) \<Longrightarrow>
     integrations db1 = integrations db \<and> ingestion_jobs db1 = ingestion_jobs db
     \<and> ingestion_jobs_seq db1 = ingestion_jobs_seq db \<and> data_source_files db1 = data_source_files db
     \<and> row_tables db1 = row_tables db"
  by (auto simp: getIntegrationByHeaders_def Let_def split: option.splits)

lemma resolve_integration_frame:
  "resolve_integration db key h = (res, db1) \<Longrightarrow>
     integrations db1 = integrations db \<and> ingestion_jobs db1 = ingestion_jobs db
     \<and> ingestion_jobs_seq db1 = ingestion_jobs_seq db \<and> data_source_files db1 = data_source_files db
     \<and> row_tables db1 = row_tables db"
  using getIntegrationByHeaders_frame[of db h res db1]
  by (auto simp: resolve_integration_def split: option.splits)

lemma getIntegrationByHeaders_again:
  assumes "getIntegrationByHeaders db h = (Some i, db1)"
    and "integrations db' = integrations db1" and "integrationCache db' = integrationCache db1"
  shows "getIntegrationByHeaders db' h = (Some i, db')"
proof (cases "map_of (integrationCache db) (cacheKey_of h)")
  case (Some c)
  with assms(1) have "db1 = db" "c = i"
    by (auto simp: getIntegrationByHeaders_def Let_def)
  with Some assms(3) show ?thesis
    by (simp add: getIntegrationByHeaders_def Let_def)
next
  case None
  with assms(1) have "integrationCache db1 = (cacheKey_of h, i) # integrationCache db"
    by (auto simp: getIntegrationByHeaders_def Let_def split: option.splits)
  with assms(3) show ?thesis
    by (simp add: getIntegrationByHeaders_def Let_def)
qed

lemma resolve_integration_again:
  assumes "resolve_integration db key h = (Some i, db1)"
    and "integrations db' = integrations db1" and "integrationCache db' = integrationCache db1"
  shows "resolve_integration db' key h = (Some i, db')"
proof (cases "key_given key")
  case None
  with assms(1) have "getIntegrationByHeaders db h = (Some i, db1)"
    by (simp add: resolve_integration_def)
  from getIntegrationByHeaders_again[OF this assms(2,3)] None show ?thesis
    by (simp add: resolve_integration_def)
next
  case (Some k)
  with assms(1) have "getIntegrationByName db k = Some i" "db1 = db"
    by (auto simp: resolve_integration_def)
  with assms(2) have "getIntegrationByName db' k = Some i"
    by (simp add: getIntegrationByName_def)
  with Some show ?thesis by (simp add: resolve_integration_def)
qed

lemma isFileProcessed_path: "isFileProcessed db i p h = isFileProcessed db i p' h"
  by (simp add: isFileProcessed_def)

lemma stream_processed:
  assumes "resolve_integration db key (parse_headers line1) = (Some integ, db1)"
    and "isFileProcessed db1 (integration_id integ) p hash"
  shows "stream H U db path hash key (line1 # rest) = (Inr (0, 0), db1)"
  using assms by (simp add: stream_def isFileProcessed_def)

lemma stream_success_recorded:
  assumes "stream H U db path hash key (line1 # rest) = (Inr res, db')"
  shows "\<exists>integ db1. resolve_integration db key (parse_headers line1) = (Some integ, db1)
           \<and> integrations db' = integrations db1 \<and> integrationCache db' = integrationCache db1
           \<and> isFileProcessed db' (integration_id integ) [] hash"
proof -
  obtain r db1 where res: "resolve_integration db key (parse_headers line1) = (r, db1)"
    by (cases "resolve_integration db key (parse_headers line1)") auto
  show ?thesis
  proof (cases r)
    case None
    with assms res show ?thesis by (simp add: stream_def)
  next
    case (Some integ)
    show ?thesis
    proof (cases "isFileProcessed db1 (integration_id integ) [] hash")
      case True
      with assms res Some have "db' = db1" by (simp add: stream_def)
      with res Some True show ?thesis by simp
    next
      case False
      obtain jobId db2 where cj: "createJob db1 (integration_id integ) path 0 = (jobId, db2)"
        by (cases "createJob db1 (integration_id integ) path 0") auto
      then have j: "jobId \<noteq> 0" and f2: "integrations db2 = integrations db1"
        "integrationCache db2 = integrationCache db1"
        by (auto simp: createJob_def Let_def)
      obtain out r' where dl: "data_lines H U (parse_headers line1) integ rest (row_tables db2) 0 0 = (out, r')"
        by (cases "data_lines H U (parse_headers line1) integ rest (row_tables db2) 0 0") auto
      show ?thesis
      proof (cases out)
        case (Inl e)
        with assms res Some False cj dl show ?thesis by (simp add: stream_def)
      next
        case (Inr ps)
        obtain processed skipped where ps: "ps = (processed, skipped)" by (cases ps) auto
        from assms res Some False cj dl Inr ps j
        have d: "db' = recordProcessedFile
                   (updateJob (db2\<lparr>row_tables := r'\<rparr>) jobId
                      \<lparr>st_status = ''completed'', st_totalRows = Some (length (line1 # rest) - 1),
                       st_processedRows = Some processed, st_insertedRows = Some processed,
                       st_errorRows = Some skipped, st_errorMessage = None\<rparr>)
                   (integration_id integ) path hash (length (line1 # rest) - 1) jobId"
          by (simp add: stream_def Let_def)
        have "integrations db' = integrations db1" "integrationCache db' = integrationCache db1"
          "isFileProcessed db' (integration_id integ) [] hash"
          unfolding d using f2 by (simp_all add: recordProcessedFile_def updateJob_def isFileProcessed_def)
        with res Some show ?thesis by simp
      qed
    qed
  qed
qed

lemma stream_twice:
  assumes "stream H U db p1 hash key lines = (Inr res, db')"
  shows "stream H U db' p2 hash key lines = (Inr (0, 0), db')"
proof (cases lines)
  case Nil
  with assms show ?thesis by (simp add: stream_def)
next
  case (Cons line1 rest)
  with assms have "stream H U db p1 hash key (line1 # rest) = (Inr res, db')" by simp
  from stream_success_recorded[OF this] obtain integ db1 where
    r: "resolve_integration db key (parse_headers line1) = (Some integ, db1)"
    and f: "integrations db' = integrations db1" "integrationCache db' = integrationCache db1"
    and p: "isFileProcessed db' (integration_id integ) [] hash"
    by blast
  from resolve_integration_again[OF r f]
  have "resolve_integration db' key (parse_headers line1) = (Some integ, db')" .
  from stream_processed[OF this p] Cons show ?thesis by simp
qed

lemma processFile_success:
  assumes "processFile H U fs db path key = (Inr res, db')"
  shows "\<exists>f. fs path = Some f \<and> path \<noteq> []
           \<and> (case key_given key of None \<Rightarrow> True | Some k \<Rightarrow> isValidIntegrationKey k)
           \<and> stream H U db path (file_sha256 f) key (file_lines f) = (Inr res, db')"
proof -
  from assms have v: "isValidFilePath fs path"
    by (auto simp: processFile_def split: if_splits)
  then obtain f where f: "fs path = Some f" and p: "path \<noteq> []"
    by (auto simp: isValidFilePath_def)
  from assms v have k: "case key_given key of None \<Rightarrow> True | Some k \<Rightarrow> isValidIntegrationKey k"
    by (auto simp: processFile_def split: if_splits option.splits)
  obtain out d where s: "stream H U db path (file_sha256 f) key (file_lines f) = (out, d)"
    by (cases "stream H U db path (file_sha256 f) key (file_lines f)") auto
  from assms v k f s have "out = Inr res \<and> d = db'"
    by (cases out) (auto simp: processFile_def split: if_splits option.splits)
  with f p k s show ?thesis by simp
qed

lemma processFile_twice:
  assumes "fs p1 = Some f" and "fs p2 = Some f" and "p2 \<noteq> []"
    and "processFile H U fs db p1 key = (Inr res, db')"
  shows "processFile H U fs db' p2 key = (Inr (0, 0), db')"
proof -
  from processFile_success[OF assms(4)] assms(1)
  have k: "case key_given key of None \<Rightarrow> True | Some k \<Rightarrow> isValidIntegrationKey k"
    and s: "stream H U db p1 (file_sha256 f) key (file_lines f) = (Inr res, db')"
    by auto
  from stream_twice[OF s]
  have "stream H U db' p2 (file_sha256 f) key (file_lines f) = (Inr (0, 0), db')" .
  with assms(2,3) k show ?thesis
    by (auto simp: processFile_def isValidFilePath_def split: option.splits)
qed

text \<open>
  Claim C1. When the integration resolved for the file has a ledger entry with the
  file's content hash, \<open>stream\<close> returns \<open>processed = 0\<close>, \<open>skipped = 0\<close> without an error
  and leaves the jobs, the ledger and the row tables as they were. The path takes no
  part in the look-up. Hence a run that succeeded makes every later run on the same
  lines and hash a run that returns 0 and 0 and changes nothing, under any path: for
  \<open>stream\<close>, and for \<open>processFile\<close> on two paths that lead to the same file.
\<close>

theorem dedup_by_content_hash:
  "(resolve_integration db key (parse_headers line1) = (Some integ, db1)
      \<and> isFileProcessed db (integration_id integ) [] hash \<longrightarrow>
        stream H U db path hash key (line1 # rest) = (Inr (0, 0), db1)
        \<and> ingestion_jobs db1 = ingestion_jobs db \<and> data_source_files db1 = data_source_files db
        \<and> row_tables db1 = row_tables db)
   \<and> isFileProcessed db i p hash = isFileProcessed db i p' hash
   \<and> (stream H U db p1 hash key lines = (Inr res, db') \<longrightarrow>
        stream H U db' p2 hash key lines = (Inr (0, 0), db'))
   \<and> (fs p1 = Some f \<and> fs p2 = Some f \<and> p2 \<noteq> [] \<and> processFile H U fs db p1 key = (Inr res, db') \<longrightarrow>
        processFile H U fs db' p2 key = (Inr (0, 0), db'))"
proof -
  have short: "resolve_integration db key (parse_headers line1) = (Some integ, db1)
      \<and> isFileProcessed db (integration_id integ) [] hash \<longrightarrow>
        stream H U db path hash key (line1 # rest) = (Inr (0, 0), db1)
        \<and> ingestion_jobs db1 = ingestion_jobs db \<and> data_source_files db1 = data_source_files db
        \<and> row_tables db1 = row_tables db"
  proof
    assume a: "resolve_integration db key (parse_headers line1) = (Some integ, db1)
      \<and> isFileProcessed db (integration_id integ) [] hash"
    then have r: "resolve_integration db key (parse_headers line1) = (Some integ, db1)" by simp
    note fr = resolve_integration_frame[OF r]
    from a fr have "isFileProcessed db1 (integration_id integ) [] hash"
      by (simp add: isFileProcessed_def)
    from stream_processed[OF r this] fr
    show "stream H U db path hash key (line1 # rest) = (Inr (0, 0), db1)
        \<and> ingestion_jobs db1 = ingestion_jobs db \<and> data_source_files db1 = data_source_files db
        \<and> row_tables db1 = row_tables db"
      by simp
  qed
  have path: "isFileProcessed db i p hash = isFileProcessed db i p' hash"
    by (rule isFileProcessed_path)
  have twice: "stream H U db p1 hash key lines = (Inr res, db') \<longrightarrow>
        stream H U db' p2 hash key lines = (Inr (0, 0), db')"
    using stream_twice by blast
  have files: "fs p1 = Some f \<and> fs p2 = Some f \<and> p2 \<noteq> [] \<and> processFile H U fs db p1 key = (Inr res, db') \<longrightarrow>
        processFile H U fs db' p2 key = (Inr (0, 0), db')"
    using processFile_twice by blast
  from short path twice files show ?thesis by (intro conjI)
qed

lemma first_run:
  "processFile example_host upserts_ok example_files seeded_storage ''a.csv'' None
     = (Inr (1, 1), storage_after_a)"
  by code_simp

theorem dedup_by_content_hash_witness:
  "processFile example_host upserts_ok example_files seeded_storage ''a.csv'' None
     = (Inr (1, 1), storage_after_a)
   \<and> processFile example_host upserts_ok example_files storage_after_a ''copy/b.csv'' None
     = (Inr (0, 0), storage_after_a)"
proof -
  let ?F = "\<lparr>file_lines = [dp3_header, good_row, ''Nando''], file_sha256 = ''9f2c''\<rparr>"
  have f1: "example_files ''a.csv'' = Some ?F" by (simp add: example_files_def)
  have f2: "example_files ''copy/b.csv'' = Some ?F" by (simp add: example_files_def)
  note run1 = first_run
  from dedup_by_content_hash
         [where fs = example_files and ?p1.0 = "''a.csv''" and ?p2.0 = "''copy/b.csv''" and f = ?F
            and H = example_host and U = upserts_ok and db = seeded_storage and key = None
            and res = "(1, 1)" and db' = storage_after_a] f1 f2 run1
  show ?thesis by simp
qed

text \<open>
  Claim C9. On a file of no lines, \<open>stream\<close> returns \<open>processed = 0\<close>, \<open>skipped = 0\<close> and
  the storage exactly as it was: nothing is looked up, cached, created, updated or
  recorded, and no validation error is raised, whatever integrations exist. So does
  \<open>processFile\<close> on a path that exists, with an integration key that is absent or well
  formed.
\<close>

theorem empty_file_no_storage_operations:
  "stream H U db path hash key [] = (Inr (0, 0), db)
   \<and> (fs path = Some f \<and> file_lines f = [] \<and> path \<noteq> []
        \<and> (\<forall>k. key_given key = Some k \<longrightarrow> isValidIntegrationKey k) \<longrightarrow>
        processFile H U fs db path key = (Inr (0, 0), db))"
  by (auto simp: stream_def processFile_def isValidFilePath_def split: option.splits)

theorem empty_file_no_storage_operations_witness:
  "processFile example_host upserts_ok example_files (empty_storage []) ''empty.csv'' None
     = (Inr (0, 0), empty_storage [])
   \<and> fst (stream example_host upserts_ok (empty_storage []) ''blank.csv'' ''01ba'' None [''''])
     = Inl (ValidationError ''Could not detect integration'' [])"
proof -
  have f: "example_files ''empty.csv'' = Some \<lparr>file_lines = [], file_sha256 = ''e3b0''\<rparr>"
    by (simp add: example_files_def)
  have a: "processFile example_host upserts_ok example_files (empty_storage []) ''empty.csv'' None
     = (Inr (0, 0), empty_storage [])"
    using empty_file_no_storage_operations
            [where fs = example_files and path = "''empty.csv''" and key = None
               and f = "\<lparr>file_lines = [], file_sha256 = ''e3b0''\<rparr>" and H = example_host
               and U = upserts_ok and db = "empty_storage []"] f
    by (simp add: key_given_def)
  have b: "fst (stream example_host upserts_ok (empty_storage []) ''blank.csv'' ''01ba'' None [''''])
     = Inl (ValidationError ''Could not detect integration'' [])"
    by code_simp
  from a b show ?thesis by (intro conjI)
qed

lemma map_fields_required_empty:
  assumes "\<forall>(c', f') \<in> set pre. \<exists>v. applyTransform H (raw c') f' = Inr v"
    and "required fm" and "applyTransform H (raw c) fm = Inr v" and "is_empty_value v"
  shows "map_fields H raw (pre @ (c, fm) # post) res = Inr None"
  using assms(1)
proof (induction pre arbitrary: res)
  case Nil
  from assms(2-4) show ?case by simp
next
  case (Cons x pre)
  obtain c' f' where x: "x = (c', f')" by (cases x) auto
  with Cons.prems obtain v' where v': "applyTransform H (raw c') f' = Inr v'" by auto
  from Cons.prems have rest: "\<forall>(c', f') \<in> set pre. \<exists>v. applyTransform H (raw c') f' = Inr v" by simp
  show ?case using x v' Cons.IH[OF rest] by simp
qed

lemma map_fields_error:
  assumes "\<forall>(c', f') \<in> set pre. \<exists>v. applyTransform H (raw c') f' = Inr v \<and> \<not> (required f' \<and> is_empty_value v)"
    and "applyTransform H (raw c) fm = Inl e"
  shows "map_fields H raw (pre @ (c, fm) # post) res = Inl e"
  using assms(1)
proof (induction pre arbitrary: res)
  case Nil
  from assms(2) show ?case by simp
next
  case (Cons x pre)
  obtain c' f' where x: "x = (c', f')" by (cases x) auto
  with Cons.prems obtain v' where v': "applyTransform H (raw c') f' = Inr v'"
    "\<not> (required f' \<and> is_empty_value v')" by auto
  from Cons.prems have rest:
    "\<forall>(c', f') \<in> set pre. \<exists>v. applyTransform H (raw c') f' = Inr v \<and> \<not> (required f' \<and> is_empty_value v)"
    by simp
  show ?case using x v' Cons.IH[OF rest] by auto
qed

lemma applyTransform_error_source:
  "applyTransform H v fm = Inl e \<Longrightarrow> \<exists>t. transform_set fm = Some t \<and> runTransformation H v t = Inl e"
  by (auto simp: applyTransform_def split: option.splits bool.splits prod.splits)

lemma data_lines_skip:
  "transform H (build_record headers (parseCSVLine line)) integ = Inr None \<Longrightarrow>
   data_lines H U headers integ (line # rest) r p s = data_lines H U headers integ rest r p (s + 1)"
  by (simp add: Let_def)

lemma data_lines_abort:
  "transform H (build_record headers (parseCSVLine line)) integ = Inl e \<Longrightarrow>
   data_lines H U headers integ (line # rest) r p s = (Inl e, r)"
  by (simp add: Let_def)

lemma data_lines_append:
  "data_lines H U headers integ before r p s = (Inr (p1, s1), r1) \<Longrightarrow>
   data_lines H U headers integ (before @ after) r p s = data_lines H U headers integ after r1 p1 s1"
proof (induction before arbitrary: r p s)
  case Nil
  then show ?case by simp
next
  case (Cons l before)
  show ?case
  proof (cases "transform H (build_record headers (parseCSVLine l)) integ")
    case (Inl e)
    with Cons.prems show ?thesis by (simp add: Let_def)
  next
    case (Inr t)
    show ?thesis
    proof (cases t)
      case None
      with Inr Cons.prems have "data_lines H U headers integ before r p (s + 1) = (Inr (p1, s1), r1)"
        by (simp add: Let_def)
      from Cons.IH[OF this] Inr None show ?thesis by (simp add: Let_def)
    next
      case (Some rec)
      obtain err r' where pr: "processRecord U rec integ r = (err, r')"
        by (cases "processRecord U rec integ r") auto
      show ?thesis
      proof (cases err)
        case None
        with Inr Some pr Cons.prems
        have "data_lines H U headers integ before r' (p + 1) s = (Inr (p1, s1), r1)"
          by (simp add: Let_def)
        from Cons.IH[OF this] Inr Some pr None show ?thesis by (simp add: Let_def)
      next
        case (Some e)
        with Inr \<open>t = Some rec\<close> pr Cons.prems show ?thesis by (simp add: Let_def)
      qed
    qed
  qed
qed

lemma stream_abort:
  assumes "resolve_integration db key (parse_headers line1) = (Some integ, db1)"
    and "\<not> isFileProcessed db1 (integration_id integ) [] hash"
    and "data_lines H U (parse_headers line1) integ rest (row_tables db1) 0 0 = (Inl e, r')"
  shows "stream H U db path hash key (line1 # rest)
           = (Inl e, (snd (createJob db1 (integration_id integ) path 0))\<lparr>row_tables := r'\<rparr>)"
  using assms by (simp add: stream_def createJob_def Let_def)

text \<open>
  Claim C4. Within one data row the mapper goes through the configured fields in order.
  When it reaches a required field whose value resolves to \<open>undefined\<close>, \<open>null\<close> or the
  empty string, it returns \<open>null\<close>; when it reaches a field whose \<open>applyTransform\<close> throws,
  which only a named transform does, the error leaves the mapper. In the loop over the
  data lines, a row for which the mapper returns \<open>null\<close> adds one to \<open>skipped\<close>, leaves the
  tables alone, and the loop goes on with the next line; a row for which the mapper
  throws ends the loop with that error, whatever lines follow, and \<open>stream\<close> throws it.
\<close>

theorem required_skips_transform_error_aborts:
  "(field_mapping integ = pre @ (c, fm) # post
      \<and> (\<forall>(c', f') \<in> set pre. \<exists>w. applyTransform H (build_record headers (parseCSVLine line) c') f' = Inr w)
      \<and> required fm \<and> applyTransform H (build_record headers (parseCSVLine line) c) fm = Inr v
      \<and> is_empty_value v \<longrightarrow>
        transform H (build_record headers (parseCSVLine line)) integ = Inr None)
   \<and> (field_mapping integ = pre @ (c, fm) # post
      \<and> (\<forall>(c', f') \<in> set pre. \<exists>w. applyTransform H (build_record headers (parseCSVLine line) c') f' = Inr w
              \<and> \<not> (required f' \<and> is_empty_value w))
      \<and> applyTransform H (build_record headers (parseCSVLine line) c) fm = Inl e \<longrightarrow>
        transform H (build_record headers (parseCSVLine line)) integ = Inl e
        \<and> (\<exists>t. transform_set fm = Some t
               \<and> runTransformation H (build_record headers (parseCSVLine line) c) t = Inl e))
   \<and> (data_lines H U headers integ before r p s = (Inr (p1, s1), r1) \<longrightarrow>
        (transform H (build_record headers (parseCSVLine line)) integ = Inr None \<longrightarrow>
           data_lines H U headers integ (before @ line # after) r p s
             = data_lines H U headers integ after r1 p1 (s1 + 1))
        \<and> (transform H (build_record headers (parseCSVLine line)) integ = Inl e \<longrightarrow>
           data_lines H U headers integ (before @ line # after) r p s = (Inl e, r1)))
   \<and> (resolve_integration db key (parse_headers line1) = (Some integ, db1)
        \<and> \<not> isFileProcessed db1 (integration_id integ) [] hash
        \<and> data_lines H U (parse_headers line1) integ rest (row_tables db1) 0 0 = (Inl e, r') \<longrightarrow>
        fst (stream H U db path hash key (line1 # rest)) = Inl e)"
proof -
  let ?raw = "build_record headers (parseCSVLine line)"
  have skip: "field_mapping integ = pre @ (c, fm) # post
      \<and> (\<forall>(c', f') \<in> set pre. \<exists>w. applyTransform H (?raw c') f' = Inr w)
      \<and> required fm \<and> applyTransform H (?raw c) fm = Inr v \<and> is_empty_value v \<longrightarrow>
        transform H ?raw integ = Inr None"
  proof
    assume a: "field_mapping integ = pre @ (c, fm) # post
      \<and> (\<forall>(c', f') \<in> set pre. \<exists>w. applyTransform H (?raw c') f' = Inr w)
      \<and> required fm \<and> applyTransform H (?raw c) fm = Inr v \<and> is_empty_value v"
    then have "map_fields H ?raw (pre @ (c, fm) # post)
                 ((\<lambda>_. VUndef)(''platform_id'' := VNum (Fin (of_int (platform_id integ))))) = Inr None"
      by (intro map_fields_required_empty) auto
    with a show "transform H ?raw integ = Inr None" by (simp add: transform_def)
  qed
  have abort: "field_mapping integ = pre @ (c, fm) # post
      \<and> (\<forall>(c', f') \<in> set pre. \<exists>w. applyTransform H (?raw c') f' = Inr w
              \<and> \<not> (required f' \<and> is_empty_value w))
      \<and> applyTransform H (?raw c) fm = Inl e \<longrightarrow>
        transform H ?raw integ = Inl e
        \<and> (\<exists>t. transform_set fm = Some t \<and> runTransformation H (?raw c) t = Inl e)"
  proof
    assume a: "field_mapping integ = pre @ (c, fm) # post
      \<and> (\<forall>(c', f') \<in> set pre. \<exists>w. applyTransform H (?raw c') f' = Inr w
              \<and> \<not> (required f' \<and> is_empty_value w))
      \<and> applyTransform H (?raw c) fm = Inl e"
    then have "map_fields H ?raw (pre @ (c, fm) # post)
                 ((\<lambda>_. VUndef)(''platform_id'' := VNum (Fin (of_int (platform_id integ))))) = Inl e"
      by (intro map_fields_error) auto
    with a have t: "transform H ?raw integ = Inl e" by (simp add: transform_def)
    from a have "\<exists>t. transform_set fm = Some t \<and> runTransformation H (?raw c) t = Inl e"
      by (intro applyTransform_error_source) simp
    with t show "transform H ?raw integ = Inl e
        \<and> (\<exists>t. transform_set fm = Some t \<and> runTransformation H (?raw c) t = Inl e)"
      by simp
  qed
  have loop: "data_lines H U headers integ before r p s = (Inr (p1, s1), r1) \<longrightarrow>
        (transform H ?raw integ = Inr None \<longrightarrow>
           data_lines H U headers integ (before @ line # after) r p s
             = data_lines H U headers integ after r1 p1 (s1 + 1))
        \<and> (transform H ?raw integ = Inl e \<longrightarrow>
           data_lines H U headers integ (before @ line # after) r p s = (Inl e, r1))"
    using data_lines_append[of H U headers integ before r p s p1 s1 r1 "line # after"]
          data_lines_skip[of H headers line integ U after r1 p1 s1]
          data_lines_abort[of H headers line integ e U after r1 p1 s1]
    by auto
  have whole: "resolve_integration db key (parse_headers line1) = (Some integ, db1)
        \<and> \<not> isFileProcessed db1 (integration_id integ) [] hash
        \<and> data_lines H U (parse_headers line1) integ rest (row_tables db1) 0 0 = (Inl e, r') \<longrightarrow>
        fst (stream H U db path hash key (line1 # rest)) = Inl e"
    using stream_abort[of db key line1 integ db1 hash H U rest e r' path] by auto
  from skip abort loop whole show ?thesis by (intro conjI)
qed

theorem required_skips_transform_error_aborts_witness:
  "transform example_host (build_record (parse_headers dp3_header) (parseCSVLine ''Nando''))
      (deliveryPlatform3Integration 1 1) = Inr None
   \<and> transform example_host (build_record (parse_headers dp3_header) (parseCSVLine bad_time_row))
      (deliveryPlatform3Integration 1 1)
     = Inl (ProcessingError ''Invalid time values''
             [(''value'', VStr ''12:75''), (''hours'', VNum (Fin 12)), (''minutes'', VNum (Fin 75)),
              (''seconds'', VNum (Fin 0))])
   \<and> data_lines example_host upserts_ok (parse_headers dp3_header) (deliveryPlatform3Integration 1 1)
        [good_row, ''Nando'', good_row] () 0 0 = (Inr (2, 1), ())
   \<and> data_lines example_host upserts_ok (parse_headers dp3_header) (deliveryPlatform3Integration 1 1)
        [good_row, bad_time_row, good_row] () 0 0
     = (Inl (ProcessingError ''Invalid time values''
             [(''value'', VStr ''12:75''), (''hours'', VNum (Fin 12)), (''minutes'', VNum (Fin 75)),
              (''seconds'', VNum (Fin 0))]), ())"
proof -
  let ?I = "deliveryPlatform3Integration 1 1"
  let ?hs = "parse_headers dp3_header"
  let ?e = "ProcessingError ''Invalid time values''
             [(''value'', VStr ''12:75''), (''hours'', VNum (Fin 12)), (''minutes'', VNum (Fin 75)),
              (''seconds'', VNum (Fin 0))]"
  have "case transform example_host (build_record ?hs (parseCSVLine ''Nando'')) ?I of
          Inl x \<Rightarrow> False | Inr None \<Rightarrow> True | Inr (Some x) \<Rightarrow> False"
    by code_simp
  then have skip: "transform example_host (build_record ?hs (parseCSVLine ''Nando'')) ?I = Inr None"
    by (simp split: sum.splits option.splits)
  have "case transform example_host (build_record ?hs (parseCSVLine bad_time_row)) ?I of
          Inl x \<Rightarrow> x = ?e | Inr x \<Rightarrow> False"
    by code_simp
  then have abort: "transform example_host (build_record ?hs (parseCSVLine bad_time_row)) ?I = Inl ?e"
    by (simp split: sum.splits)
  have before: "data_lines example_host upserts_ok ?hs ?I [good_row] () 0 0 = (Inr (1, 0), ())"
    by code_simp
  have after: "data_lines example_host upserts_ok ?hs ?I [good_row] () 1 (0 + 1) = (Inr (2, 1), ())"
    by code_simp
  have a: "data_lines example_host upserts_ok ?hs ?I [good_row, ''Nando'', good_row] () 0 0 = (Inr (2, 1), ())"
    using required_skips_transform_error_aborts
            [where H = example_host and U = upserts_ok and headers = ?hs and integ = ?I
               and before = "[good_row]" and line = "''Nando''" and after = "[good_row]"
               and r = "()" and p = 0 and s = 0 and ?p1.0 = 1 and ?s1.0 = 0 and ?r1.0 = "()"]
          skip before after
    by simp
  have b: "data_lines example_host upserts_ok ?hs ?I [good_row, bad_time_row, good_row] () 0 0 = (Inl ?e, ())"
    using required_skips_transform_error_aborts
            [where H = example_host and U = upserts_ok and headers = ?hs and integ = ?I
               and before = "[good_row]" and line = bad_time_row and after = "[good_row]"
               and r = "()" and p = 0 and s = 0 and ?p1.0 = 1 and ?s1.0 = 0 and ?r1.0 = "()" and e = ?e]
          abort before
    by simp
  from skip abort a b show ?thesis by (intro conjI)
qed

lemma stream_error_bookkeeping:
  assumes "stream H U db path hash key lines = (Inl e, db')"
  shows "data_source_files db' = data_source_files db
         \<and> (ingestion_jobs db' = ingestion_jobs db
              \<or> (\<exists>j. ingestion_jobs db' = ingestion_jobs db @ [j] \<and> job_status j = ''pending''
                       \<and> job_error_message j = None))"
proof (cases lines)
  case Nil
  with assms show ?thesis by (simp add: stream_def)
next
  case (Cons line1 rest)
  obtain r db1 where res: "resolve_integration db key (parse_headers line1) = (r, db1)"
    by (cases "resolve_integration db key (parse_headers line1)") auto
  note fr = resolve_integration_frame[OF res]
  show ?thesis
  proof (cases r)
    case None
    with assms Cons res have "db' = db1" by (simp add: stream_def)
    with fr show ?thesis by simp
  next
    case (Some integ)
    show ?thesis
    proof (cases "isFileProcessed db1 (integration_id integ) [] hash")
      case True
      with assms Cons res Some show ?thesis by (simp add: stream_def)
    next
      case False
      obtain out r' where dl:
        "data_lines H U (parse_headers line1) integ rest
           (row_tables (snd (createJob db1 (integration_id integ) path 0))) 0 0 = (out, r')"
        by (cases "data_lines H U (parse_headers line1) integ rest
           (row_tables (snd (createJob db1 (integration_id integ) path 0))) 0 0") auto
      show ?thesis
      proof (cases out)
        case (Inl e')
        with assms Cons res Some False dl
        have "db' = (snd (createJob db1 (integration_id integ) path 0))\<lparr>row_tables := r'\<rparr>"
          by (simp add: stream_def createJob_def Let_def)
        with fr show ?thesis by (simp add: createJob_def Let_def)
      next
        case (Inr ps)
        with assms Cons res Some False dl show ?thesis
          by (cases ps) (simp add: stream_def createJob_def Let_def)
      qed
    qed
  qed
qed

text \<open>
  Claim C2, at two runs that fail after the job was created: a file whose first row has
  the time \<open>12:75\<close>, and a file whose first row cannot be persisted. \<open>processFile\<close> throws
  the processing error; the job it created is still \<open>pending\<close>, with no error message,
  and the ledger has no entry for the file. It is so for every failing run
  (\<open>stream_error_bookkeeping\<close>): the engine never calls \<open>updateJob\<close> with the status
  \<open>failed\<close>.
\<close>

theorem failed_run_leaves_job_pending:
  "fst (processFile example_host upserts_ok example_files seeded_storage ''bad_time.csv'' None)
     = Inl (ProcessingError ''Invalid time values''
             [(''value'', VStr ''12:75''), (''hours'', VNum (Fin 12)), (''minutes'', VNum (Fin 75)),
              (''seconds'', VNum (Fin 0))])
   \<and> ingestion_jobs (snd (processFile example_host upserts_ok example_files seeded_storage ''bad_time.csv'' None))
     = [\<lparr>job_id = 1, job_integration_id = 1, job_file_path = ''bad_time.csv'', job_status = ''pending'',
         job_total_rows = 0, job_processed_rows = 0, job_inserted_rows = 0, job_error_rows = 0,
         job_error_message = None\<rparr>]
   \<and> data_source_files (snd (processFile example_host upserts_ok example_files seeded_storage ''bad_time.csv'' None))
     = []
   \<and> fst (processFile example_host upserts_failing example_files seeded_storage ''a.csv'' None)
     = Inl (ProcessingError ''Failed to process record'' [(''integration'', VStr ''deliveryplatform3_total_order'')])
   \<and> ingestion_jobs (snd (processFile example_host upserts_failing example_files seeded_storage ''a.csv'' None))
     = [\<lparr>job_id = 1, job_integration_id = 1, job_file_path = ''a.csv'', job_status = ''pending'',
         job_total_rows = 0, job_processed_rows = 0, job_inserted_rows = 0, job_error_rows = 0,
         job_error_message = None\<rparr>]
   \<and> data_source_files (snd (processFile example_host upserts_failing example_files seeded_storage ''a.csv'' None))
     = []"
  by code_simp

end
